theory Spec2Isabelle
  imports Main "HOL-Library.Sublist"
begin

section \<open>Values of the review page\<close>

text \<open>
  The review page (\<^verbatim>\<open>src/web/src/pages/OCRResult.tsx\<close>) keeps the recognised words of a
  document, the page that is shown, the selected box and the extraction result. The
  payloads it receives are untyped JSON (\<^verbatim>\<open>Record<string, any>\<close>,
  \<^verbatim>\<open>ExtractionMapping\<close>), so they are modelled as JavaScript values. Numbers are
  integers here: token indices, page numbers and pixel coordinates. Strings are lists of
  code units below 256.
\<close>

datatype jsval =
    Undefined
  | Null
  | Bool bool
  | Number int
  | Str string
  | Arr "jsval list"
  | Obj "(string \<times> jsval) list"

text \<open>The result of \<^verbatim>\<open>Math.min\<close>, \<^verbatim>\<open>Math.max\<close> and of a subtraction of such results.\<close>

datatype jsnum = Fin int | NaN | PosInf | NegInf

text \<open>\<^verbatim>\<open>OcrWord\<close> of \<^verbatim>\<open>src/web/src/config.ts\<close>: the fields the page reads.\<close>

record ocr_word =
  content :: string
  points :: "int list list option"
  page :: "int option"

text \<open>\<^verbatim>\<open>OcrBoundingBox\<close>.\<close>

record bounding_box =
  box_id :: nat
  top :: jsnum
  left :: jsnum
  width :: jsnum
  height :: jsnum
  box_text :: string

datatype view = OcrView | ExtractionView

datatype toast_type = Success | Error | Info

text \<open>\<^verbatim>\<open>Field\<close> of \<^verbatim>\<open>src/web/src/types/app-schema.ts\<close>; \<open>items\<close> is the item template of a list.\<close>

datatype field =
  Field (field_name: string) (field_type: string)
        (field_fields: "field list option")
        (field_items: "(string \<times> field list option) option")

text \<open>
  What a closure of the component reads. Every render runs the component function anew:
  the functions it defines see the state values of that render as constants
  (\<^verbatim>\<open>const [pollingAttemptCount, ...] = useState(0)\<close>) and the local variable
  \<^verbatim>\<open>let statusCheckTimer = null\<close> of that render. \<open>env_scope\<close> is the render.
\<close>

record closure_env =
  env_scope :: nat
  env_pollingAttemptCount :: nat
  env_extractionStatus :: string
  env_appFields :: "field list"
  env_extractedInfo :: "(string \<times> jsval) list"
  env_ocrWords :: "ocr_word list"
  env_mapping :: jsval

text \<open>
  A live interval timer of the runtime, with the environment of its callback. \<open>t_rerun\<close>
  tells the callback of \<^verbatim>\<open>rerunOcr\<close> from the one of \<^verbatim>\<open>startPolling\<close>.
\<close>

record timer =
  t_id :: nat
  t_rerun :: bool
  t_env :: closure_env

text \<open>
  The state of the component \<^verbatim>\<open>OcrResult\<close> and of its child \<^verbatim>\<open>ExtractedInfoDisplay\<close>
  (\<open>editMode\<close>, \<open>editedInfo\<close>, \<open>originalInfo\<close>), with what the runtime holds for them: the live
  timers, the value of \<^verbatim>\<open>statusCheckTimer\<close> in every render (\<open>statusCheckTimer s k\<close> for
  render \<open>k\<close>; \<open>curScope\<close> is the latest render), the save calls that \<^verbatim>\<open>setTimeout\<close> has
  scheduled and the bodies of the save requests that were sent. The display name of the
  application and the texts of the notifications are left out.
\<close>

record ocr_state =
  docId :: "string option"
  imageSrc :: string
  imageUrls :: "(int \<times> string) list"
  currentPageIndex :: int
  totalPages :: int
  isMultipage :: bool
  ocrWords :: "ocr_word list"
  boundingBoxes :: "bounding_box list"
  selectedIndex :: "int option"
  extractionStatus :: string
  extractedInfo :: "(string \<times> jsval) list"
  appFields :: "field list"
  mapping :: jsval
  pollingAttemptCount :: nat
  activeView :: view
  toast :: "toast_type option"
  isRerunning :: bool
  timers :: "timer list"
  nextTimerId :: nat
  statusCheckTimer :: "nat \<Rightarrow> nat option"
  curScope :: nat
  editMode :: bool
  editedInfo :: "(string \<times> jsval) list"
  originalInfo :: "(string \<times> jsval) list"
  pendingSaves :: "closure_env list"
  saveRequests :: "((string \<times> jsval) list \<times> jsval) list"

section \<open>Bounding boxes of the current page\<close>

fun num_min :: "jsnum \<Rightarrow> jsnum \<Rightarrow> jsnum" where
  "num_min NaN y = NaN"
| "num_min x NaN = NaN"
| "num_min NegInf y = NegInf"
| "num_min x NegInf = NegInf"
| "num_min PosInf y = y"
| "num_min x PosInf = x"
| "num_min (Fin a) (Fin b) = Fin (min a b)"

fun num_max :: "jsnum \<Rightarrow> jsnum \<Rightarrow> jsnum" where
  "num_max NaN y = NaN"
| "num_max x NaN = NaN"
| "num_max PosInf y = PosInf"
| "num_max x PosInf = PosInf"
| "num_max NegInf y = y"
| "num_max x NegInf = x"
| "num_max (Fin a) (Fin b) = Fin (max a b)"

fun num_sub :: "jsnum \<Rightarrow> jsnum \<Rightarrow> jsnum" where
  "num_sub NaN y = NaN"
| "num_sub x NaN = NaN"
| "num_sub (Fin a) (Fin b) = Fin (a - b)"
| "num_sub PosInf PosInf = NaN"
| "num_sub NegInf NegInf = NaN"
| "num_sub PosInf y = PosInf"
| "num_sub NegInf y = NegInf"
| "num_sub (Fin a) PosInf = NegInf"
| "num_sub (Fin a) NegInf = PosInf"

text \<open>\<^verbatim>\<open>Math.min(...xs)\<close> and \<^verbatim>\<open>Math.max(...xs)\<close>.\<close>

fun math_min :: "jsnum list \<Rightarrow> jsnum" where
  "math_min [] = PosInf"
| "math_min (x # xs) = num_min x (math_min xs)"

fun math_max :: "jsnum list \<Rightarrow> jsnum" where
  "math_max [] = NegInf"
| "math_max (x # xs) = num_max x (math_max xs)"

text \<open>\<^verbatim>\<open>p[k]\<close> of a point, as an argument of \<^verbatim>\<open>Math.min\<close>: a missing coordinate is \<^verbatim>\<open>NaN\<close>.\<close>

definition coord :: "int list \<Rightarrow> nat \<Rightarrow> jsnum" where
  "coord p k = (if k < length p then Fin (p ! k) else NaN)"

text \<open>The callback of \<^verbatim>\<open>currentPageWords.map((word, index) => ...)\<close>.\<close>

definition word_box :: "ocr_word \<Rightarrow> nat \<Rightarrow> bounding_box" where
  "word_box word index =
     (case points word of
        None \<Rightarrow> \<lparr>box_id = index, top = Fin 0, left = Fin 0, width = Fin 0, height = Fin 0,
                 box_text = content word\<rparr>
      | Some pts \<Rightarrow>
          if length pts < 4
          then \<lparr>box_id = index, top = Fin 0, left = Fin 0, width = Fin 0, height = Fin 0,
                 box_text = content word\<rparr>
          else
            (let minX = math_min (map (\<lambda>p. coord p 0) pts);
                 minY = math_min (map (\<lambda>p. coord p 1) pts);
                 maxX = math_max (map (\<lambda>p. coord p 0) pts);
                 maxY = math_max (map (\<lambda>p. coord p 1) pts)
             in \<lparr>box_id = index, top = minY, left = minX, width = num_sub maxX minX,
                  height = num_sub maxY minY, box_text = content word\<rparr>))"

text \<open>The words the boxes are made of: all of them, or those whose page is the shown one.\<close>

definition currentPageWords :: "bool \<Rightarrow> ocr_word list \<Rightarrow> int \<Rightarrow> ocr_word list" where
  "currentPageWords multipage ws targetPageIndex =
     (if \<not> multipage then ws
      else filter (\<lambda>word. page word = Some (targetPageIndex + 1)) ws)"

definition page_boxes :: "bool \<Rightarrow> ocr_word list \<Rightarrow> int \<Rightarrow> bounding_box list" where
  "page_boxes multipage ws targetPageIndex =
     (let cpw = currentPageWords multipage ws targetPageIndex
      in map (\<lambda>(word, index). word_box word index) (zip cpw [0 ..< length cpw]))"

text \<open>\<^verbatim>\<open>updateBoundingBoxesForCurrentPage(pageIndex?)\<close>.\<close>

definition updateBoundingBoxesForCurrentPage :: "int option \<Rightarrow> ocr_state \<Rightarrow> ocr_state" where
  "updateBoundingBoxesForCurrentPage pageIndex s =
     (let targetPageIndex = (case pageIndex of Some i \<Rightarrow> i | None \<Rightarrow> currentPageIndex s)
      in s\<lparr>boundingBoxes := page_boxes (isMultipage s) (ocrWords s) targetPageIndex\<rparr>)"

section \<open>Page navigation\<close>

text \<open>\<^verbatim>\<open>imageUrls[i]?.url || ""\<close>.\<close>

definition url_at :: "(int \<times> string) list \<Rightarrow> int \<Rightarrow> string" where
  "url_at urls i = (if 0 \<le> i \<and> i < int (length urls) then snd (urls ! nat i) else [])"

definition goToPreviousPage :: "ocr_state \<Rightarrow> ocr_state" where
  "goToPreviousPage s =
     (if currentPageIndex s > 0
      then (let newIndex = currentPageIndex s - 1;
                s1 = s\<lparr>currentPageIndex := newIndex, imageSrc := url_at (imageUrls s) newIndex\<rparr>;
                s2 = updateBoundingBoxesForCurrentPage (Some newIndex) s1
            in s2\<lparr>selectedIndex := None\<rparr>)
      else s)"

definition goToNextPage :: "ocr_state \<Rightarrow> ocr_state" where
  "goToNextPage s =
     (if currentPageIndex s < totalPages s - 1
      then (let newIndex = currentPageIndex s + 1;
                s1 = s\<lparr>currentPageIndex := newIndex, imageSrc := url_at (imageUrls s) newIndex\<rparr>;
                s2 = updateBoundingBoxesForCurrentPage (Some newIndex) s1
            in s2\<lparr>selectedIndex := None\<rparr>)
      else s)"

text \<open>The bounds of the page index.\<close>

definition page_in_bounds :: "ocr_state \<Rightarrow> bool" where
  "page_in_bounds s \<longleftrightarrow> 0 \<le> currentPageIndex s \<and> currentPageIndex s \<le> totalPages s - 1"

text \<open>A state to evaluate the operations on: a document of two pages, nothing else loaded.\<close>

definition base_state :: ocr_state where
  "base_state =
     \<lparr>docId = Some ''doc-1'', imageSrc = ''u1'', imageUrls = [(1, ''u1''), (2, ''u2'')],
      currentPageIndex = 0, totalPages = 2, isMultipage = True, ocrWords = [],
      boundingBoxes = [], selectedIndex = None, extractionStatus = ''pending'',
      extractedInfo = [], appFields = [], mapping = Obj [], pollingAttemptCount = 0,
      activeView = ExtractionView, toast = None, isRerunning = False, timers = [],
      nextTimerId = 0, statusCheckTimer = (\<lambda>_. None), curScope = 0, editMode = False,
      editedInfo = [], originalInfo = [], pendingSaves = [], saveRequests = []\<rparr>"

section \<open>JavaScript values: truthiness, keys and properties\<close>

datatype js_error = TypeError

text \<open>What \<^verbatim>\<open>if (v)\<close>, \<^verbatim>\<open>!v\<close>, \<^verbatim>\<open>v && ...\<close> and \<^verbatim>\<open>v || d\<close> test.\<close>

fun truthy :: "jsval \<Rightarrow> bool" where
  "truthy Undefined = False"
| "truthy Null = False"
| "truthy (Bool b) = b"
| "truthy (Number n) = (n \<noteq> 0)"
| "truthy (Str s) = (s \<noteq> [])"
| "truthy (Arr xs) = True"
| "truthy (Obj kvs) = True"

definition or_else :: "jsval \<Rightarrow> jsval \<Rightarrow> jsval" where
  "or_else v d = (if truthy v then v else d)"

text \<open>The decimal digits of a number, as a property key is written.\<close>

definition digit_char :: "nat \<Rightarrow> char" where
  "digit_char d = char_of (48 + d)"

fun show_nat :: "nat \<Rightarrow> string" where
  "show_nat n = (if n < 10 then [digit_char n] else show_nat (n div 10) @ [digit_char (n mod 10)])"

declare show_nat.simps [simp del]

definition show_int :: "int \<Rightarrow> string" where
  "show_int n = (if n < 0 then CHR ''-'' # show_nat (nat (- n)) else show_nat (nat n))"

fun join_comma :: "string list \<Rightarrow> string" where
  "join_comma [] = []"
| "join_comma [x] = x"
| "join_comma (x # y # ys) = x @ CHR '','' # join_comma (y # ys)"

text \<open>
  The string a value becomes when it is used as a property key (\<^verbatim>\<open>ocrWords[v]\<close>): an
  array joins its elements with commas, with nothing for \<^verbatim>\<open>null\<close> and \<^verbatim>\<open>undefined\<close>.
\<close>

fun toStr :: "jsval \<Rightarrow> string" where
  "toStr Undefined = ''undefined''"
| "toStr Null = ''null''"
| "toStr (Bool b) = (if b then ''true'' else ''false'')"
| "toStr (Number n) = show_int n"
| "toStr (Str s) = s"
| "toStr (Arr xs) =
     join_comma (map (\<lambda>x. if x = Undefined \<or> x = Null then [] else toStr x) xs)"
| "toStr (Obj kvs) = ''[object Object]''"

text \<open>
  The element of an array that a key names: the key has to be the decimal writing of an
  index below the length. The other properties of an array (\<^verbatim>\<open>length\<close> apart, which
  \<open>getProp\<close> answers) and the properties an object inherits are not modelled: a key that
  names one of them finds nothing here.
\<close>

definition arr_get :: "'a list \<Rightarrow> string \<Rightarrow> 'a option" where
  "arr_get xs key = map_of (zip (map show_nat [0 ..< length xs]) xs) key"

text \<open>\<^verbatim>\<open>v[key]\<close> for a value \<open>v\<close> that is neither \<^verbatim>\<open>null\<close> nor \<^verbatim>\<open>undefined\<close>.\<close>

fun getProp :: "jsval \<Rightarrow> string \<Rightarrow> jsval" where
  "getProp (Obj kvs) key = (case map_of kvs key of Some v \<Rightarrow> v | None \<Rightarrow> Undefined)"
| "getProp (Arr xs) key =
     (if key = ''length'' then Number (int (length xs))
      else (case arr_get xs key of Some v \<Rightarrow> v | None \<Rightarrow> Undefined))"
| "getProp (Str str) key =
     (if key = ''length'' then Number (int (length str))
      else (case arr_get (map (\<lambda>c. Str [c]) str) key of Some v \<Rightarrow> v | None \<Rightarrow> Undefined))"
| "getProp v key = Undefined"

text \<open>\<^verbatim>\<open>path.split('.')\<close>.\<close>

fun split_dot :: "string \<Rightarrow> string list" where
  "split_dot [] = [[]]"
| "split_dot (c # cs) =
     (if c = CHR ''.'' then [] # split_dot cs
      else (case split_dot cs of [] \<Rightarrow> [[c]] | seg # segs \<Rightarrow> (c # seg) # segs))"

text \<open>\<^verbatim>\<open>getNestedValue(obj, path)\<close>: the reducer, and the reduction over the segments.\<close>

definition nested_step :: "jsval \<Rightarrow> string \<Rightarrow> jsval" where
  "nested_step current key =
     (if truthy current \<and> getProp current key \<noteq> Undefined then getProp current key
      else Undefined)"

definition getNestedValue :: "jsval \<Rightarrow> string \<Rightarrow> jsval" where
  "getNestedValue obj path = foldl nested_step obj (split_dot path)"

section \<open>Highlighting the words of a field\<close>

text \<open>\<^verbatim>\<open>ocrWords[index]\<close> for an index taken from the mapping.\<close>

definition word_at :: "ocr_word list \<Rightarrow> jsval \<Rightarrow> ocr_word option" where
  "word_at ws index = arr_get ws (toStr index)"

text \<open>\<^verbatim>\<open>word.page || 1\<close>.\<close>

definition page_or_1 :: "ocr_word \<Rightarrow> int" where
  "page_or_1 word = (case page word of None \<Rightarrow> 1 | Some p \<Rightarrow> if p = 0 then 1 else p)"

text \<open>\<^verbatim>\<open>word.page === targetPage || (!word.page && targetPage === 1)\<close>.\<close>

definition on_target_page :: "int \<Rightarrow> ocr_word \<Rightarrow> bool" where
  "on_target_page targetPage word \<longleftrightarrow>
     page word = Some targetPage
     \<or> ((page word = None \<or> page word = Some 0) \<and> targetPage = 1)"

text \<open>\<^verbatim>\<open>xs.findIndex(p)\<close>: the first position that satisfies \<open>p\<close>, or -1.\<close>

fun findIndex :: "('a \<Rightarrow> bool) \<Rightarrow> 'a list \<Rightarrow> int" where
  "findIndex p [] = - 1"
| "findIndex p (x # xs) =
     (if p x then 0 else (let r = findIndex p xs in if r = - 1 then - 1 else r + 1))"

text \<open>
  The comparison of the callback of \<^verbatim>\<open>findIndex\<close>: the same content and the same
  \<^verbatim>\<open>JSON.stringify(points)\<close>, which for lists of integers is the same points.
\<close>

definition same_word :: "ocr_word \<Rightarrow> ocr_word \<Rightarrow> bool" where
  "same_word word pageWord \<longleftrightarrow> content pageWord = content word \<and> points pageWord = points word"

text \<open>The words among which the relative index is taken.\<close>

definition targetPageWords :: "bool \<Rightarrow> ocr_word list \<Rightarrow> int \<Rightarrow> ocr_word list" where
  "targetPageWords multipage ws targetPage =
     (if multipage then filter (on_target_page targetPage) ws else ws)"

text \<open>
  \<^verbatim>\<open>highlightWordsOnCurrentPage(fieldPath, targetPage)\<close>. \<^verbatim>\<open>wordIndices.filter\<close> exists on
  arrays only: on any other value the call raises a \<^verbatim>\<open>TypeError\<close>.
\<close>

definition highlightWordsOnCurrentPage :: "string \<Rightarrow> int \<Rightarrow> ocr_state \<Rightarrow> js_error + ocr_state" where
  "highlightWordsOnCurrentPage fieldPath targetPage s =
     (case or_else (getNestedValue (mapping s) fieldPath) (Arr []) of
        Arr wordIndices \<Rightarrow>
          (let currentPageWordIndices =
                 filter (\<lambda>index. case word_at (ocrWords s) index of
                                    None \<Rightarrow> False
                                  | Some word \<Rightarrow> on_target_page targetPage word) wordIndices
           in if currentPageWordIndices = [] then Inr s
              else
                (let cpw = targetPageWords (isMultipage s) (ocrWords s) targetPage;
                     relativeIndices =
                       filter (\<lambda>index. index \<noteq> - 1)
                         (map (\<lambda>globalIndex. case word_at (ocrWords s) globalIndex of
                                                None \<Rightarrow> - 1
                                              | Some word \<Rightarrow> findIndex (same_word word) cpw)
                            currentPageWordIndices)
                 in (case relativeIndices of
                       [] \<Rightarrow> Inr s
                     | r # rs \<Rightarrow> Inr (s\<lparr>selectedIndex := Some r\<rparr>))))
      | _ \<Rightarrow> Inl TypeError)"

text \<open>
  \<^verbatim>\<open>handleExtractedFieldClick(fieldPath)\<close>. The result is the new state and, when the page
  was switched, the call that \<^verbatim>\<open>setTimeout\<close> has scheduled: the field path and the target
  page.
\<close>

definition handleExtractedFieldClick ::
  "string \<Rightarrow> ocr_state \<Rightarrow> js_error + (ocr_state \<times> (string \<times> int) option)" where
  "handleExtractedFieldClick fieldPath s =
     (let wordIndices = or_else (getNestedValue (mapping s) fieldPath) (Arr [])
      in if getProp wordIndices ''length'' = Number 0 then Inr (s, None)
         else
           (let firstWordIndex = getProp wordIndices ''0''
            in case word_at (ocrWords s) firstWordIndex of
                 None \<Rightarrow> Inr (s, None)
               | Some targetWord \<Rightarrow>
                   (let targetPage = page_or_1 targetWord;
                        targetPageIndex = targetPage - 1
                    in if targetPageIndex \<noteq> currentPageIndex s
                       then Inr (s\<lparr>currentPageIndex := targetPageIndex,
                                    imageSrc := url_at (imageUrls s) targetPageIndex\<rparr>,
                                 Some (fieldPath, targetPage))
                       else (case highlightWordsOnCurrentPage fieldPath targetPage s of
                               Inl e \<Rightarrow> Inl e
                             | Inr s' \<Rightarrow> Inr (s', None)))))"

text \<open>\<^verbatim>\<open>highlightField(fieldPath, stayOnExtractionView = true)\<close>.\<close>

definition highlightField ::
  "string \<Rightarrow> bool \<Rightarrow> ocr_state \<Rightarrow> js_error + (ocr_state \<times> (string \<times> int) option)" where
  "highlightField fieldPath stayOnExtractionView s =
     (case handleExtractedFieldClick fieldPath s of
        Inl e \<Rightarrow> Inl e
      | Inr (s', pending) \<Rightarrow>
          Inr (if stayOnExtractionView = False then s'\<lparr>activeView := OcrView\<rparr> else s',
               pending))"

text \<open>
  The effect that follows a render in which the words, the page or the multi-page flag
  have changed: the boxes are recomputed when there are words.
\<close>

definition boxes_effect :: "ocr_state \<Rightarrow> ocr_state" where
  "boxes_effect s =
     (if length (ocrWords s) > 0 then updateBoundingBoxesForCurrentPage None s else s)"

text \<open>
  \<open>highlightField\<close> followed by what it has scheduled: the render with its effect, then
  the timeout. The callback of the timeout is the one of the render of the click; the
  mapping, the words and the multi-page flag it reads are those of the state, which the
  click does not change.
\<close>

definition highlightField_settled :: "string \<Rightarrow> bool \<Rightarrow> ocr_state \<Rightarrow> js_error + ocr_state" where
  "highlightField_settled fieldPath stayOnExtractionView s =
     (case highlightField fieldPath stayOnExtractionView s of
        Inl e \<Rightarrow> Inl e
      | Inr (s', None) \<Rightarrow> Inr s'
      | Inr (s', Some (fp, targetPage)) \<Rightarrow>
          highlightWordsOnCurrentPage fp targetPage (boxes_effect s'))"

text \<open>
  The page-relative index of the glossary: the position of token \<open>i\<close> among the tokens
  that belong to page \<open>p\<close>. In a document that is not multi-page every token is shown on
  the one image, and the position is the global one.
\<close>

definition page_relative_index :: "bool \<Rightarrow> ocr_word list \<Rightarrow> int \<Rightarrow> nat \<Rightarrow> int" where
  "page_relative_index multipage ws p i =
     (if multipage then int (length (filter (on_target_page p) (take i ws))) else int i)"

section \<open>The heuristic mapping\<close>

text \<open>
  \<^verbatim>\<open>\s\<close> and \<^verbatim>\<open>toLowerCase\<close> on code units below 256: the white space is tab, line feed,
  vertical tab, form feed, carriage return, space and the no-break space; the letters
  that have a lower case are A to Z and the accented capitals 192 to 222 without the
  multiplication sign 215.
\<close>

definition is_space :: "char \<Rightarrow> bool" where
  "is_space c \<longleftrightarrow> (of_char c :: nat) \<in> {9, 10, 11, 12, 13, 32, 160}"

definition to_lower_char :: "char \<Rightarrow> char" where
  "to_lower_char c =
     (let n = (of_char c :: nat)
      in if (65 \<le> n \<and> n \<le> 90) \<or> (192 \<le> n \<and> n \<le> 222 \<and> n \<noteq> 215)
         then char_of (n + 32) else c)"

text \<open>\<^verbatim>\<open>x.replace(/\s+/g, "").toLowerCase()\<close>.\<close>

definition normalize :: "string \<Rightarrow> string" where
  "normalize str = map to_lower_char (filter (\<lambda>c. \<not> is_space c) str)"

text \<open>
  \<^verbatim>\<open>findMatchingIndices(value)\<close> for a string value; \<^verbatim>\<open>a.includes(b)\<close> is \<open>sublist b a\<close>.
\<close>

definition findMatchingIndices :: "string \<Rightarrow> ocr_word list \<Rightarrow> int list" where
  "findMatchingIndices value ws =
     (if value = [] \<or> ws = [] then []
      else
        (let normalizedValue = normalize value
         in filter (\<lambda>index. index \<noteq> - 1)
              (map (\<lambda>(result, index).
                      if sublist normalizedValue (normalize (content result)) then int index
                      else - 1)
                 (zip ws [0 ..< length ws]))))"

text \<open>\<^verbatim>\<open>obj[key] = v\<close> on an object: a present key keeps its place.\<close>

fun obj_set :: "(string \<times> jsval) list \<Rightarrow> string \<Rightarrow> jsval \<Rightarrow> (string \<times> jsval) list" where
  "obj_set [] key v = [(key, v)]"
| "obj_set ((k, x) # kvs) key v =
     (if k = key then (k, v) # kvs else (k, x) # obj_set kvs key v)"

text \<open>\<^verbatim>\<open>extractedInfo[name]\<close>.\<close>

definition info_get :: "(string \<times> jsval) list \<Rightarrow> string \<Rightarrow> jsval" where
  "info_get info name = (case map_of info name of Some v \<Rightarrow> v | None \<Rightarrow> Undefined)"

text \<open>The object with an empty index array for every one of the given fields.\<close>

definition empty_indices :: "field list \<Rightarrow> jsval" where
  "empty_indices fs = Obj (foldl (\<lambda>m f. obj_set m (field_name f) (Arr [])) [] fs)"

text \<open>
  What the body of \<^verbatim>\<open>appFields.forEach\<close> in \<^verbatim>\<open>generateSimpleMapping\<close> assigns to
  \<^verbatim>\<open>newMapping[field.name]\<close>, branch by branch.
\<close>

definition field_mapping :: "field \<Rightarrow> (string \<times> jsval) list \<Rightarrow> ocr_word list \<Rightarrow> jsval" where
  "field_mapping f info ws =
     (if field_type f = ''string'' then Arr []
      else if field_type f = ''map'' \<and> field_fields f \<noteq> None
      then (case field_fields f of Some subs \<Rightarrow> empty_indices subs | None \<Rightarrow> Obj [])
      else if field_type f = ''list'' \<and> field_items f \<noteq> None
      then (case field_items f of
              Some (item_type, Some item_fields) \<Rightarrow>
                if item_type = ''map''
                then (case info_get info (field_name f) of
                        Arr listData \<Rightarrow>
                          if length listData > 0
                          then Arr (map (\<lambda>_. empty_indices item_fields) listData)
                          else Arr []
                      | _ \<Rightarrow> Arr [])
                else Arr []
            | _ \<Rightarrow> Arr [])
      else (case info_get info (field_name f) of
              Str fieldValue \<Rightarrow>
                if fieldValue \<noteq> [] then Arr (map Number (findMatchingIndices fieldValue ws))
                else Arr []
            | _ \<Rightarrow> Arr []))"

text \<open>\<^verbatim>\<open>generateSimpleMapping()\<close>: the mapping it passes to \<^verbatim>\<open>setMapping\<close>.\<close>

definition generateSimpleMapping ::
  "field list \<Rightarrow> (string \<times> jsval) list \<Rightarrow> ocr_word list \<Rightarrow> jsval" where
  "generateSimpleMapping flds info ws =
     Obj (foldl (\<lambda>newMapping f. obj_set newMapping (field_name f) (field_mapping f info ws))
            [] flds)"

section \<open>Starting and polling the extraction\<close>

definition MAX_POLLING_ATTEMPTS :: nat where
  "MAX_POLLING_ATTEMPTS = 20"

text \<open>The environment of the functions of the latest render, and the next render.\<close>

definition render_env :: "ocr_state \<Rightarrow> closure_env" where
  "render_env s =
     \<lparr>env_scope = curScope s, env_pollingAttemptCount = pollingAttemptCount s,
      env_extractionStatus = extractionStatus s, env_appFields = appFields s,
      env_extractedInfo = extractedInfo s, env_ocrWords = ocrWords s,
      env_mapping = mapping s\<rparr>"

definition rerender :: "ocr_state \<Rightarrow> ocr_state" where
  "rerender s = s\<lparr>curScope := Suc (curScope s)\<rparr>"

text \<open>\<^verbatim>\<open>!id\<close>.\<close>

definition no_id :: "ocr_state \<Rightarrow> bool" where
  "no_id s \<longleftrightarrow> docId s = None \<or> docId s = Some []"

definition clearInterval :: "nat \<Rightarrow> ocr_state \<Rightarrow> ocr_state" where
  "clearInterval tid s = s\<lparr>timers := filter (\<lambda>t. t_id t \<noteq> tid) (timers s)\<rparr>"

definition setInterval :: "bool \<Rightarrow> closure_env \<Rightarrow> ocr_state \<Rightarrow> nat \<times> ocr_state" where
  "setInterval rerun env s =
     (nextTimerId s,
      s\<lparr>timers := timers s @ [\<lparr>t_id = nextTimerId s, t_rerun = rerun, t_env = env\<rparr>],
        nextTimerId := Suc (nextTimerId s)\<rparr>)"

text \<open>
  \<^verbatim>\<open>if (statusCheckTimer) { clearInterval(statusCheckTimer); statusCheckTimer = null; }\<close>
  in a function of render \<open>k\<close>.
\<close>

definition stop_status_timer :: "nat \<Rightarrow> ocr_state \<Rightarrow> ocr_state" where
  "stop_status_timer k s =
     (case statusCheckTimer s k of
        None \<Rightarrow> s
      | Some tid \<Rightarrow> (clearInterval tid s)\<lparr>statusCheckTimer := (statusCheckTimer s)(k := None)\<rparr>)"

text \<open>The answers of the backend: a request may throw.\<close>

record extraction_response =
  r_status :: "string option"
  r_fields :: "field list option"
  r_extracted_info :: "(string \<times> jsval) list option"
  r_mapping :: jsval

datatype fetch_response = FetchThrows | FetchOk extraction_response

datatype status_response = StatusThrows | StatusOk string fetch_response

datatype post_response = PostThrows | PostOk string

datatype request_error = RequestFailed

text \<open>\<^verbatim>\<open>fetchExtractionInfo()\<close>: it catches what the request throws.\<close>

definition fetchExtractionInfo :: "closure_env \<Rightarrow> fetch_response \<Rightarrow> ocr_state \<Rightarrow> ocr_state" where
  "fetchExtractionInfo env resp s =
     (if no_id s then s
      else
        (case resp of
           FetchThrows \<Rightarrow> s
         | FetchOk r \<Rightarrow>
             (let s1 = s\<lparr>extractionStatus :=
                          (case r_status r of
                             None \<Rightarrow> ''pending''
                           | Some st \<Rightarrow> if st = [] then ''pending'' else st)\<rparr>
              in if r_status r = Some ''completed''
                 then
                   (let s2 = stop_status_timer (env_scope env) s1;
                        s3 = (case r_fields r of Some fs \<Rightarrow> s2\<lparr>appFields := fs\<rparr> | None \<Rightarrow> s2);
                        s4 = s3\<lparr>extractedInfo :=
                                 (case r_extracted_info r of Some info \<Rightarrow> info | None \<Rightarrow> [])\<rparr>
                    in if truthy (r_mapping r) then s4\<lparr>mapping := r_mapping r\<rparr>
                       else s4\<lparr>mapping := generateSimpleMapping (env_appFields env)
                                               (env_extractedInfo env) (env_ocrWords env)\<rparr>)
                 else if r_status r = Some ''failed''
                 then s1\<lparr>extractionStatus := ''failed''\<rparr>
                 else s1\<lparr>extractionStatus := ''processing''\<rparr>)))"

text \<open>\<^verbatim>\<open>checkExtractionStatus()\<close>: it logs what the request throws and throws it again.\<close>

definition checkExtractionStatus ::
  "closure_env \<Rightarrow> status_response \<Rightarrow> ocr_state \<Rightarrow> request_error + ocr_state" where
  "checkExtractionStatus env resp s =
     (if no_id s then Inr s
      else
        (case resp of
           StatusThrows \<Rightarrow> Inl RequestFailed
         | StatusOk status fetched \<Rightarrow>
             if status = ''completed''
             then Inr (stop_status_timer (env_scope env)
                         (fetchExtractionInfo env fetched (s\<lparr>extractionStatus := ''completed''\<rparr>)))
             else if status = ''failed''
             then Inr (stop_status_timer (env_scope env) (s\<lparr>extractionStatus := ''failed''\<rparr>))
             else Inr (s\<lparr>extractionStatus := ''processing''\<rparr>)))"

text \<open>\<^verbatim>\<open>startPolling()\<close>.\<close>

definition startPolling :: "closure_env \<Rightarrow> ocr_state \<Rightarrow> ocr_state" where
  "startPolling env s =
     (let s1 = (case statusCheckTimer s (env_scope env) of
                  Some tid \<Rightarrow> clearInterval tid s
                | None \<Rightarrow> s);
          (tid, s2) = setInterval False env s1
      in s2\<lparr>statusCheckTimer := (statusCheckTimer s2)(env_scope env := Some tid)\<rparr>)"

text \<open>
  The callback that \<^verbatim>\<open>startPolling\<close> gives to \<^verbatim>\<open>setInterval\<close>, for one tick of timer \<open>t\<close>.
  \<^verbatim>\<open>pollingAttemptCount\<close> and \<^verbatim>\<open>extractionStatus\<close> in its tests are the constants of the
  render that created it; only \<^verbatim>\<open>setPollingAttemptCount(prev => prev + 1)\<close> reads the
  state.
\<close>

definition poll_tick :: "timer \<Rightarrow> status_response \<Rightarrow> ocr_state \<Rightarrow> ocr_state" where
  "poll_tick t resp s =
     (let env = t_env t;
          s1 = s\<lparr>pollingAttemptCount := Suc (pollingAttemptCount s)\<rparr>
      in case checkExtractionStatus env resp s1 of
           Inr s2 \<Rightarrow>
             if env_pollingAttemptCount env \<ge> MAX_POLLING_ATTEMPTS
                \<and> env_extractionStatus env = ''processing''
             then stop_status_timer (env_scope env) s2
             else s2
         | Inl e \<Rightarrow>
             if env_pollingAttemptCount env \<ge> MAX_POLLING_ATTEMPTS
             then stop_status_timer (env_scope env) (s1\<lparr>extractionStatus := ''failed''\<rparr>)
             else s1)"

text \<open>The callback that \<^verbatim>\<open>rerunOcr\<close> gives to \<^verbatim>\<open>setInterval\<close>.\<close>

definition rerun_tick :: "timer \<Rightarrow> status_response \<Rightarrow> ocr_state \<Rightarrow> ocr_state" where
  "rerun_tick t resp s =
     (case checkExtractionStatus (t_env t) resp s of
        Inr s1 \<Rightarrow> s1\<lparr>pollingAttemptCount := Suc (pollingAttemptCount s1)\<rparr>
      | Inl e \<Rightarrow> s)"

text \<open>One tick of the timer \<open>tid\<close>: only a live timer ticks.\<close>

definition tick :: "nat \<Rightarrow> status_response \<Rightarrow> ocr_state \<Rightarrow> ocr_state" where
  "tick tid resp s =
     (case find (\<lambda>t. t_id t = tid) (timers s) of
        None \<Rightarrow> s
      | Some t \<Rightarrow> if t_rerun t then rerun_tick t resp s else poll_tick t resp s)"

definition run_ticks :: "nat \<Rightarrow> status_response list \<Rightarrow> ocr_state \<Rightarrow> ocr_state" where
  "run_ticks tid resps s = foldl (\<lambda>s' resp. tick tid resp s') s resps"

text \<open>\<^verbatim>\<open>startExtraction()\<close>.\<close>

definition startExtraction :: "closure_env \<Rightarrow> post_response \<Rightarrow> ocr_state \<Rightarrow> ocr_state" where
  "startExtraction env resp s =
     (if no_id s then s
      else
        (let s1 = s\<lparr>extractionStatus := ''processing'', pollingAttemptCount := 0\<rparr>
         in case resp of
              PostThrows \<Rightarrow> s1\<lparr>extractionStatus := ''failed''\<rparr>
            | PostOk status \<Rightarrow>
                if status = ''success'' then startPolling env (s1\<lparr>activeView := ExtractionView\<rparr>)
                else s1\<lparr>extractionStatus := ''failed''\<rparr>))"

text \<open>\<^verbatim>\<open>rerunOcr()\<close>.\<close>

definition rerunOcr :: "closure_env \<Rightarrow> post_response \<Rightarrow> ocr_state \<Rightarrow> ocr_state" where
  "rerunOcr env resp s =
     (if no_id s then s
      else
        (let s1 = s\<lparr>isRerunning := True\<rparr>
         in case resp of
              PostThrows \<Rightarrow> s1\<lparr>toast := Some Error, isRerunning := False\<rparr>
            | PostOk status \<Rightarrow>
                (let s2 = s1\<lparr>toast := Some Info, extractionStatus := ''processing'',
                               pollingAttemptCount := 0\<rparr>;
                     (tid, s3) = setInterval True env s2
                 in s3\<lparr>statusCheckTimer := (statusCheckTimer s3)(env_scope env := Some tid),
                        isRerunning := False\<rparr>)))"

text \<open>
  A click reaches the handler of the latest render, and the state it sets is followed by
  a new render. This is the click that changes a state value, as every click of the
  runs below does; a click whose handler sets only values the state already holds is not
  followed by a render and is not what these two functions describe.
\<close>

definition click_startExtraction :: "post_response \<Rightarrow> ocr_state \<Rightarrow> ocr_state" where
  "click_startExtraction resp s = rerender (startExtraction (render_env s) resp s)"

definition click_rerunOcr :: "post_response \<Rightarrow> ocr_state \<Rightarrow> ocr_state" where
  "click_rerunOcr resp s = rerender (rerunOcr (render_env s) resp s)"

text \<open>The status values that end a job.\<close>

definition terminal :: "string \<Rightarrow> bool" where
  "terminal status \<longleftrightarrow> status = ''completed'' \<or> status = ''failed''"

fun is_terminal :: "status_response \<Rightarrow> bool" where
  "is_terminal StatusThrows = False"
| "is_terminal (StatusOk status fetched) = terminal status"

fun throws :: "status_response \<Rightarrow> bool" where
  "throws StatusThrows = True"
| "throws (StatusOk status fetched) = False"

definition live :: "nat \<Rightarrow> ocr_state \<Rightarrow> bool" where
  "live tid s \<longleftrightarrow> tid \<in> t_id ` set (timers s)"

section \<open>Editing the extracted values\<close>

text \<open>
  The child component \<^verbatim>\<open>ExtractedInfoDisplay\<close> (\<^verbatim>\<open>src/unnamed/part_004\<close>). Its property
  \<^verbatim>\<open>extractedInfo\<close> is the state of the parent, \<^verbatim>\<open>onUpdateExtractedInfo\<close> is the parent's
  \<^verbatim>\<open>setExtractedInfo\<close> and \<^verbatim>\<open>onSave\<close> is the parent's \<^verbatim>\<open>saveExtractedInfo\<close>.
\<close>

text \<open>The effect on \<^verbatim>\<open>[extractedInfo, editMode]\<close>.\<close>

definition sync_effect :: "ocr_state \<Rightarrow> ocr_state" where
  "sync_effect s =
     (if \<not> editMode s then s\<lparr>editedInfo := extractedInfo s, originalInfo := extractedInfo s\<rparr>
      else s)"

text \<open>
  \<^verbatim>\<open>toggleEditMode()\<close>. The \<^verbatim>\<open>onSave\<close> that the timeout will call is the function the parent
  passed to the render of the click, so what is scheduled is the environment of that
  render.
\<close>

definition toggleEditMode :: "ocr_state \<Rightarrow> ocr_state" where
  "toggleEditMode s =
     (if editMode s
      then s\<lparr>extractedInfo := editedInfo s, pendingSaves := pendingSaves s @ [render_env s],
             editMode := False\<rparr>
      else s\<lparr>editMode := True\<rparr>)"

definition cancelEdit :: "ocr_state \<Rightarrow> ocr_state" where
  "cancelEdit s = s\<lparr>editedInfo := originalInfo s, editMode := False\<rparr>"

text \<open>\<^verbatim>\<open>saveExtractedInfo()\<close> of the environment \<open>env\<close>, with the answers of the backend.\<close>

definition saveExtractedInfo ::
  "closure_env \<Rightarrow> post_response \<Rightarrow> fetch_response \<Rightarrow> ocr_state \<Rightarrow> ocr_state" where
  "saveExtractedInfo env resp fetched s =
     (if no_id s then s
      else
        (let s1 = s\<lparr>saveRequests := saveRequests s @ [(env_extractedInfo env, env_mapping env)]\<rparr>
         in case resp of
              PostThrows \<Rightarrow> s1\<lparr>toast := Some Error\<rparr>
            | PostOk status \<Rightarrow>
                if status = ''success''
                then (fetchExtractionInfo env fetched s1)\<lparr>toast := Some Success\<rparr>
                else s1))"

text \<open>The timeout of \<^verbatim>\<open>toggleEditMode\<close> fires: the oldest scheduled save runs.\<close>

definition run_save_timeout :: "post_response \<Rightarrow> fetch_response \<Rightarrow> ocr_state \<Rightarrow> ocr_state" where
  "run_save_timeout resp fetched s =
     (case pendingSaves s of
        [] \<Rightarrow> s
      | env # rest \<Rightarrow> saveExtractedInfo env resp fetched (s\<lparr>pendingSaves := rest\<rparr>))"

text \<open>\<^verbatim>\<open>updateFieldValue(fieldName, value)\<close>.\<close>

definition updateFieldValue :: "string \<Rightarrow> jsval \<Rightarrow> ocr_state \<Rightarrow> ocr_state" where
  "updateFieldValue fieldName v s =
     (let newEditedInfo = obj_set (editedInfo s) fieldName v
      in s\<lparr>editedInfo := newEditedInfo, extractedInfo := newEditedInfo\<rparr>)"

text \<open>The own properties that \<^verbatim>\<open>{...v}\<close> copies.\<close>

fun spread_obj :: "jsval \<Rightarrow> (string \<times> jsval) list" where
  "spread_obj (Obj kvs) = kvs"
| "spread_obj (Arr xs) = zip (map show_nat [0 ..< length xs]) xs"
| "spread_obj (Str str) = zip (map show_nat [0 ..< length str]) (map (\<lambda>c. Str [c]) str)"
| "spread_obj v = []"

text \<open>The elements that \<^verbatim>\<open>[...v]\<close> copies; a value that cannot be iterated raises.\<close>

fun spread_arr :: "jsval \<Rightarrow> js_error + jsval list" where
  "spread_arr (Arr xs) = Inr xs"
| "spread_arr (Str str) = Inr (map (\<lambda>c. Str [c]) str)"
| "spread_arr v = Inl TypeError"

text \<open>\<^verbatim>\<open>xs[i] = v\<close> on an array: an index past the end leaves holes.\<close>

definition arr_set :: "jsval list \<Rightarrow> nat \<Rightarrow> jsval \<Rightarrow> jsval list" where
  "arr_set xs i v =
     (if i < length xs then xs[i := v] else xs @ replicate (i - length xs) Undefined @ [v])"

text \<open>\<^verbatim>\<open>updateMapFieldValue(fieldName, subFieldName, value)\<close>.\<close>

definition updateMapFieldValue :: "string \<Rightarrow> string \<Rightarrow> jsval \<Rightarrow> ocr_state \<Rightarrow> ocr_state" where
  "updateMapFieldValue fieldName subFieldName v s =
     (let currentMap = or_else (info_get (editedInfo s) fieldName) (Obj []);
          updatedMap = Obj (obj_set (spread_obj currentMap) subFieldName v)
      in s\<lparr>editedInfo := obj_set (editedInfo s) fieldName updatedMap\<rparr>)"

text \<open>\<^verbatim>\<open>updateListItem(fieldName, itemIndex, itemValue)\<close>.\<close>

definition updateListItem :: "string \<Rightarrow> nat \<Rightarrow> jsval \<Rightarrow> ocr_state \<Rightarrow> js_error + ocr_state" where
  "updateListItem fieldName itemIndex itemValue s =
     (case spread_arr (or_else (info_get (editedInfo s) fieldName) (Arr [])) of
        Inl e \<Rightarrow> Inl e
      | Inr currentList \<Rightarrow>
          Inr (s\<lparr>editedInfo := obj_set (editedInfo s) fieldName
                                  (Arr (arr_set currentList itemIndex itemValue))\<rparr>))"

text \<open>\<^verbatim>\<open>updateListItemProperty(fieldName, itemIndex, propertyName, value)\<close>.\<close>

definition updateListItemProperty ::
  "string \<Rightarrow> nat \<Rightarrow> string \<Rightarrow> jsval \<Rightarrow> ocr_state \<Rightarrow> js_error + ocr_state" where
  "updateListItemProperty fieldName itemIndex propertyName v s =
     (case spread_arr (or_else (info_get (editedInfo s) fieldName) (Arr [])) of
        Inl e \<Rightarrow> Inl e
      | Inr currentList \<Rightarrow>
          (let item = (if itemIndex < length currentList \<and> truthy (currentList ! itemIndex)
                       then currentList ! itemIndex else Obj []);
               updated = Obj (obj_set (spread_obj item) propertyName v)
           in Inr (s\<lparr>editedInfo := obj_set (editedInfo s) fieldName
                                     (Arr (arr_set currentList itemIndex updated))\<rparr>)))"

text \<open>
  The indices the fallback of section 4.3 of the design selects for a value: every token
  whose normalised content contains the normalised value.
\<close>

definition tokens_containing :: "string \<Rightarrow> ocr_word list \<Rightarrow> nat list" where
  "tokens_containing value ws =
     filter (\<lambda>i. sublist (normalize value) (normalize (content (ws ! i)))) [0 ..< length ws]"

text \<open>
  The document of the scenario: page 1 holds the tokens 0 to 4, page 2 the tokens 5 to 7.
  Token 3 has no geometry and token 4 a triangle.
\<close>

definition quad :: "int \<Rightarrow> int \<Rightarrow> int list list" where
  "quad x y = [[x, y], [x + 10, y], [x + 10, y + 5], [x, y + 5]]"

definition scenario_words :: "ocr_word list" where
  "scenario_words =
     [\<lparr>content = ''Invoice'', points = Some (quad 0 0), page = Some 1\<rparr>,
      \<lparr>content = ''ACME'', points = Some (quad 20 0), page = Some 1\<rparr>,
      \<lparr>content = ''Corp'', points = Some (quad 40 0), page = Some 1\<rparr>,
      \<lparr>content = ''Date'', points = None, page = Some 1\<rparr>,
      \<lparr>content = ''2024'', points = Some [[0, 30], [10, 30], [10, 35]], page = Some 1\<rparr>,
      \<lparr>content = ''No.'', points = Some (quad 0 0), page = Some 2\<rparr>,
      \<lparr>content = ''INV-42'', points = Some (quad 20 0), page = Some 2\<rparr>,
      \<lparr>content = ''Total'', points = Some (quad 40 0), page = Some 2\<rparr>]"

definition scenario_state :: ocr_state where
  "scenario_state =
     base_state\<lparr>ocrWords := scenario_words,
                 mapping := Obj [(''invoice_number'', Arr [Number 6])]\<rparr>"

text \<open>A document whose page 2 holds the same word twice, with the same geometry.\<close>

definition twin_words :: "ocr_word list" where
  "twin_words =
     [\<lparr>content = ''Invoice'', points = Some (quad 0 0), page = Some 1\<rparr>,
      \<lparr>content = ''42'', points = Some (quad 0 0), page = Some 2\<rparr>,
      \<lparr>content = ''42'', points = Some (quad 0 0), page = Some 2\<rparr>]"

definition twin_state :: ocr_state where
  "twin_state =
     base_state\<lparr>ocrWords := twin_words, mapping := Obj [(''invoice_number'', Arr [Number 2])]\<rparr>"

text \<open>
  Runs of the poller on the document of the scenario. \<open>fresh_poll\<close>: the extraction has
  just been started, no attempt counted. \<open>retry_base\<close>: that poller has seen 19 answers
  \<^verbatim>\<open>processing\<close> and then the answer \<^verbatim>\<open>failed\<close>, so the status is \<open>failed\<close>, 20 attempts
  are counted and the retry button is shown. \<open>retry_poll\<close>: the retry has been pressed
  and its poller, timer 1, has seen 19 answers \<^verbatim>\<open>processing\<close>. \<open>rerun_poll\<close>: the OCR has
  been run again from the state of the scenario.
\<close>

definition processing_tick :: status_response where
  "processing_tick = StatusOk ''processing'' FetchThrows"

definition fresh_poll :: ocr_state where
  "fresh_poll = click_startExtraction (PostOk ''success'') scenario_state"

definition retry_base :: ocr_state where
  "retry_base =
     tick 0 (StatusOk ''failed'' FetchThrows) (run_ticks 0 (replicate 19 processing_tick) fresh_poll)"

definition retry_poll :: ocr_state where
  "retry_poll =
     run_ticks 1 (replicate 19 processing_tick) (click_startExtraction (PostOk ''success'') retry_base)"

definition rerun_poll :: ocr_state where
  "rerun_poll = click_rerunOcr (PostOk []) scenario_state"

text \<open>
  The data of the scenario of the fallback: one token \<^verbatim>\<open>Acme Corp.\<close>, and the value
  \<^verbatim>\<open>ACME Corp\<close> for a field of type \<^verbatim>\<open>string\<close> and for a field of another type.
\<close>

definition acme_words :: "ocr_word list" where
  "acme_words =
     [\<lparr>content = ''Acme Corp.'', points = Some (quad 0 0), page = Some 1\<rparr>,
      \<lparr>content = ''Total'', points = Some (quad 20 0), page = Some 1\<rparr>]"

definition company_field :: field where
  "company_field = Field ''company'' ''string'' None None"

definition vendor_field :: field where
  "vendor_field = Field ''vendor'' ''text'' None None"

definition acme_info :: "(string \<times> jsval) list" where
  "acme_info = [(''company'', Str ''ACME Corp''), (''vendor'', Str ''ACME Corp'')]"

text \<open>
  A fetch whose answer holds no mapping, in a render that already shows these fields,
  values and words (as the fetch that follows a save): the fallback reads what the fetch
  sets.
\<close>

definition acme_state :: ocr_state where
  "acme_state =
     base_state\<lparr>extractionStatus := ''completed'', appFields := [company_field, vendor_field],
                 extractedInfo := acme_info, ocrWords := acme_words\<rparr>"

definition acme_response :: extraction_response where
  "acme_response =
     \<lparr>r_status = Some ''completed'', r_fields = Some [company_field, vendor_field],
      r_extracted_info = Some acme_info, r_mapping = Undefined\<rparr>"

definition acme_fetched :: ocr_state where
  "acme_fetched = fetchExtractionInfo (render_env acme_state) (FetchOk acme_response) acme_state"

text \<open>
  An edit session on a value tree with a top-level leaf, a map and a list of one row: the
  state before the edit button is pressed, and the state in edit mode.
\<close>

definition shipper_info :: "(string \<times> jsval) list" where
  "shipper_info =
     [(''carrier'', Str ''Yamato''),
      (''shipper'', Obj [(''city'', Str ''Osaka'')]),
      (''items'', Arr [Obj [(''name'', Str ''box'')]])]"

definition view_state :: ocr_state where
  "view_state =
     sync_effect (base_state\<lparr>extractionStatus := ''completed'', extractedInfo := shipper_info\<rparr>)"

definition editing_state :: ocr_state where
  "editing_state = toggleEditMode view_state"

section \<open>Keys, lookups and the first match\<close>

lemma digit_char_inj:
  assumes "d < 10" "e < 10" "digit_char d = digit_char e"
  shows "d = e"
proof -
  have d: "of_char (digit_char d) = ((48 + d) mod 256 :: nat)"
    unfolding digit_char_def by (rule of_char_of)
  have e: "of_char (digit_char e) = ((48 + e) mod 256 :: nat)"
    unfolding digit_char_def by (rule of_char_of)
  from assms(3) d e have "(48 + d) mod 256 = (48 + e) mod 256" by metis
  with assms(1,2) show ?thesis by simp
qed

lemma show_nat_small: "n < 10 \<Longrightarrow> show_nat n = [digit_char n]"
  by (subst show_nat.simps) simp

lemma show_nat_big: "\<not> n < 10 \<Longrightarrow> show_nat n = show_nat (n div 10) @ [digit_char (n mod 10)]"
  by (subst show_nat.simps) simp

lemma show_nat_nonempty: "show_nat n \<noteq> []"
  by (cases "n < 10") (simp_all add: show_nat_small show_nat_big)

lemma show_nat_length: "length (show_nat n) = 1 \<longleftrightarrow> n < 10"
proof (cases "n < 10")
  case True
  then show ?thesis by (simp add: show_nat_small)
next
  case False
  have "length (show_nat (n div 10)) \<noteq> 0" using show_nat_nonempty by simp
  with False show ?thesis by (simp add: show_nat_big)
qed

lemma show_nat_inj: "show_nat n = show_nat m \<Longrightarrow> n = m"
proof (induction n arbitrary: m rule: show_nat.induct)
  case (1 n)
  from "1.prems" have len: "n < 10 \<longleftrightarrow> m < 10"
    using show_nat_length [of n] show_nat_length [of m] by simp
  show ?case
  proof (cases "n < 10")
    case True
    with len "1.prems" have "digit_char n = digit_char m"
      by (simp add: show_nat_small)
    with True len show ?thesis by (auto dest: digit_char_inj)
  next
    case False
    with len have m: "\<not> m < 10" by simp
    from "1.prems" False m
    have eq: "show_nat (n div 10) = show_nat (m div 10)"
      and d: "digit_char (n mod 10) = digit_char (m mod 10)"
      by (simp_all add: show_nat_big)
    from "1.IH" [OF False eq] have "n div 10 = m div 10" .
    moreover have "n mod 10 = m mod 10"
      by (rule digit_char_inj [OF _ _ d]) simp_all
    ultimately show ?thesis by (metis div_mult_mod_eq)
  qed
qed

lemma arr_get_nth:
  assumes "i < length xs"
  shows "arr_get xs (show_nat i) = Some (xs ! i)"
proof -
  have "distinct (map show_nat [0 ..< length xs])"
    by (simp add: distinct_map inj_on_def show_nat_inj)
  from map_of_zip_nth [OF _ this, of xs i] assms show ?thesis
    by (simp add: arr_get_def)
qed

lemma arr_get_Some:
  assumes "arr_get xs key = Some x"
  shows "\<exists>i < length xs. key = show_nat i \<and> x = xs ! i"
proof -
  from assms have "(key, x) \<in> set (zip (map show_nat [0 ..< length xs]) xs)"
    by (auto simp: arr_get_def dest: map_of_SomeD)
  then show ?thesis by (auto simp: set_zip)
qed

lemma findIndex_none: "(\<forall>x \<in> set xs. \<not> p x) \<Longrightarrow> findIndex p xs = - 1"
  by (induction xs) auto

lemma findIndex_ge: "findIndex p xs \<ge> - 1"
  by (induction xs) (auto simp: Let_def)

lemma findIndex_first:
  assumes "\<forall>x \<in> set as. \<not> p x" "p b"
  shows "findIndex p (as @ b # cs) = int (length as)"
  using assms by (induction as) (auto simp: Let_def)


lemma findIndex_found: "\<exists>x \<in> set xs. p x \<Longrightarrow> findIndex p xs \<noteq> - 1"
proof (induction xs)
  case Nil
  then show ?case by simp
next
  case (Cons a xs)
  then show ?case using findIndex_ge [of p xs] by (auto simp: Let_def)
qed

lemma show_nat_0: "show_nat 0 = ''0''"
  by code_simp

lemma arr_get_0: "arr_get (x # xs) ''0'' = Some x"
  using arr_get_nth [of 0 "x # xs"] by (simp add: show_nat_0)

lemma word_at_Number:
  assumes "i < length ws"
  shows "word_at ws (Number (int i)) = Some (ws ! i)"
  using arr_get_nth [OF assms] by (simp add: word_at_def show_int_def)

lemma on_target_page_own: "on_target_page (page_or_1 w) w"
  by (auto simp: on_target_page_def page_or_1_def split: option.splits)

lemma highlightWords_first:
  assumes res: "getNestedValue (mapping s) path = Arr (Number (int i) # rest)"
    and i: "i < length (ocrWords s)"
  shows "\<exists>s'. highlightWordsOnCurrentPage path (page_or_1 (ocrWords s ! i)) s = Inr s'
            \<and> s' = s\<lparr>selectedIndex :=
                    Some (findIndex (same_word (ocrWords s ! i))
                           (targetPageWords (isMultipage s) (ocrWords s)
                              (page_or_1 (ocrWords s ! i))))\<rparr>"
proof -
  let ?w = "ocrWords s ! i"
  let ?p = "page_or_1 ?w"
  let ?cpw = "targetPageWords (isMultipage s) (ocrWords s) ?p"
  have mem: "?w \<in> set ?cpw"
    using i by (simp add: targetPageWords_def on_target_page_own)
  have "same_word ?w ?w" by (simp add: same_word_def)
  with mem have found: "findIndex (same_word ?w) ?cpw \<noteq> - 1"
    by (intro findIndex_found) blast
  show ?thesis
    using found
    by (simp add: highlightWordsOnCurrentPage_def res or_else_def word_at_Number [OF i]
        on_target_page_own Let_def)
qed

lemma findIndex_filter_take:
  assumes i: "i < length ws" and q: "q (ws ! i)" and pw: "p (ws ! i)"
    and nodup: "\<forall>j<i. q (ws ! j) \<longrightarrow> \<not> p (ws ! j)"
  shows "findIndex p (filter q ws) = int (length (filter q (take i ws)))"
proof -
  have ws: "ws = take i ws @ ws ! i # drop (Suc i) ws"
    using i by (rule id_take_nth_drop)
  have "filter q ws = filter q (take i ws) @ ws ! i # filter q (drop (Suc i) ws)"
    by (subst ws) (simp add: q)
  moreover have "\<forall>x \<in> set (filter q (take i ws)). \<not> p x"
    using nodup i by (auto simp: in_set_conv_nth)
  ultimately show ?thesis using pw by (simp add: findIndex_first)
qed

section \<open>Properties of the highlighting\<close>

text \<open>
  Claim C1, as amended. When the mapping of a field path is an array whose first index
  refers to a token \<open>w\<close> of page \<open>p\<close> and \<open>p\<close> is not the page shown, \<open>highlightField\<close>
  followed by its timeout makes \<open>p\<close> the active page and selects the position, among the
  tokens of page \<open>p\<close>, of the first token that has the content and the geometry of \<open>w\<close>.
  When no earlier token of the page has both, that position is the page-relative index
  of \<open>w\<close> itself.
\<close>

theorem C1_highlight_selects_first_match_on_page:
  assumes res: "getNestedValue (mapping s) path = Arr (Number (int i) # rest)"
    and i: "i < length (ocrWords s)"
    and w: "w = ocrWords s ! i"
    and p: "p = page_or_1 w"
    and diff: "p - 1 \<noteq> currentPageIndex s"
  shows "\<exists>s'. highlightField_settled path stay s = Inr s'
           \<and> currentPageIndex s' = p - 1
           \<and> selectedIndex s'
               = Some (findIndex (same_word w) (targetPageWords (isMultipage s) (ocrWords s) p))
           \<and> ((\<forall>j<i. (isMultipage s \<longrightarrow> on_target_page p (ocrWords s ! j))
                      \<longrightarrow> \<not> same_word w (ocrWords s ! j))
                \<longrightarrow> selectedIndex s'
                      = Some (page_relative_index (isMultipage s) (ocrWords s) p i))"
proof -
  define s1 where "s1 = s\<lparr>currentPageIndex := p - 1, imageSrc := url_at (imageUrls s) (p - 1)\<rparr>"
  define s2 where "s2 = boxes_effect (if stay = False then s1\<lparr>activeView := OcrView\<rparr> else s1)"
  have click: "handleExtractedFieldClick path s = Inr (s1, Some (path, p))"
    using diff
    by (simp add: handleExtractedFieldClick_def res or_else_def arr_get_0
        word_at_Number [OF i] w [symmetric] p [symmetric] s1_def Let_def)
  have settled: "highlightField_settled path stay s = highlightWordsOnCurrentPage path p s2"
    by (simp add: highlightField_settled_def highlightField_def click s2_def)
  have keep: "mapping s2 = mapping s" "ocrWords s2 = ocrWords s" "isMultipage s2 = isMultipage s"
    "currentPageIndex s2 = p - 1"
    by (simp_all add: s2_def s1_def boxes_effect_def updateBoundingBoxesForCurrentPage_def)
  from highlightWords_first [of s2 path i rest] res i keep w p
  obtain s' where s': "highlightWordsOnCurrentPage path p s2 = Inr s'"
    "s' = s2\<lparr>selectedIndex :=
              Some (findIndex (same_word w) (targetPageWords (isMultipage s) (ocrWords s) p))\<rparr>"
    by auto
  have rel: "findIndex (same_word w) (targetPageWords (isMultipage s) (ocrWords s) p)
               = page_relative_index (isMultipage s) (ocrWords s) p i"
    if nodup: "\<forall>j<i. (isMultipage s \<longrightarrow> on_target_page p (ocrWords s ! j))
                      \<longrightarrow> \<not> same_word w (ocrWords s ! j)"
  proof (cases "isMultipage s")
    case True
    from findIndex_filter_take [of i "ocrWords s" "on_target_page p" "same_word w"] i nodup True
    show ?thesis
      by (simp add: targetPageWords_def page_relative_index_def w p on_target_page_own
          same_word_def)
  next
    case False
    from findIndex_filter_take [of i "ocrWords s" "\<lambda>_. True" "same_word w"] i nodup False
    show ?thesis
      by (simp add: targetPageWords_def page_relative_index_def w same_word_def)
  qed
  from s' keep rel show ?thesis by (simp add: settled)
qed

theorem C1_witness:
  "map_sum id currentPageIndex (highlightField_settled ''invoice_number'' True scenario_state) = Inr 1
   \<and> map_sum id selectedIndex (highlightField_settled ''invoice_number'' True scenario_state)
       = Inr (Some 1)"
proof -
  have res: "getNestedValue (mapping scenario_state) ''invoice_number'' = Arr [Number (int 6)]"
    by (simp add: scenario_state_def base_state_def getNestedValue_def nested_step_def)
  have ws: "ocrWords scenario_state = scenario_words" "isMultipage scenario_state"
    "currentPageIndex scenario_state = 0"
    by (simp_all add: scenario_state_def base_state_def)
  have i: "6 < length (ocrWords scenario_state)"
    by (simp add: ws scenario_words_def)
  have p: "(2::int) = page_or_1 (ocrWords scenario_state ! 6)"
    by (simp add: ws scenario_words_def page_or_1_def)
  have diff: "(2::int) - 1 \<noteq> currentPageIndex scenario_state"
    by (simp add: ws)
  have d: "distinct (map content scenario_words)"
    by (simp add: scenario_words_def)
  have nodup: "\<forall>j<6. (isMultipage scenario_state \<longrightarrow> on_target_page 2 (ocrWords scenario_state ! j))
                 \<longrightarrow> \<not> same_word (ocrWords scenario_state ! 6) (ocrWords scenario_state ! j)"
  proof (intro allI impI)
    fix j :: nat assume j: "j < 6"
    have len: "length scenario_words = 8" by (simp add: scenario_words_def)
    from nth_eq_iff_index_eq [OF d, of j 6] j len
    have "content (scenario_words ! j) \<noteq> content (scenario_words ! 6)" by simp
    then show "\<not> same_word (ocrWords scenario_state ! 6) (ocrWords scenario_state ! j)"
      by (simp add: ws same_word_def)
  qed
  have rel: "page_relative_index (isMultipage scenario_state) (ocrWords scenario_state) 2 6 = 1"
    by (simp add: ws page_relative_index_def scenario_words_def on_target_page_def)
  from C1_highlight_selects_first_match_on_page [OF res i refl p diff, of True] nodup rel
  show ?thesis by auto
qed


text \<open>
  The claim C1 as it is stated fails when page 2 holds the same word twice with the same
  geometry and the mapping names the second one: the page is switched, but the selected
  position is 0, the one of the first twin, while the page-relative index of the token
  is 1.
\<close>

theorem C1_counterexample_twin_tokens:
  "getNestedValue (mapping twin_state) ''invoice_number'' = Arr [Number 2]
   \<and> page (ocrWords twin_state ! 2) = Some 2
   \<and> currentPageIndex twin_state = 0
   \<and> map_sum id currentPageIndex (highlightField_settled ''invoice_number'' True twin_state)
       = Inr 1
   \<and> map_sum id selectedIndex (highlightField_settled ''invoice_number'' True twin_state)
       = Inr (Some 0)
   \<and> page_relative_index (isMultipage twin_state) (ocrWords twin_state) 2 2 = 1
   \<and> map_sum id selectedIndex (highlightField_settled ''invoice_number'' True twin_state)
       \<noteq> Inr (Some (page_relative_index (isMultipage twin_state) (ocrWords twin_state) 2 2))"
  by code_simp

text \<open>
  Claim C2. When the mapping of a field path is the empty array, or is absent (or any
  other value that \<^verbatim>\<open>|| []\<close> replaces), \<open>highlightField\<close> returns without an error, schedules
  nothing and leaves the state as it is, the selection and the active page included; only
  the view changes, and only when the caller asked for the OCR view.
\<close>

theorem C2_empty_index_set_is_noop:
  assumes "getNestedValue (mapping s) path = Arr [] \<or> \<not> truthy (getNestedValue (mapping s) path)"
  shows "highlightField path stay s = Inr (if stay then s else s\<lparr>activeView := OcrView\<rparr>, None)
       \<and> highlightField_settled path stay s = Inr (if stay then s else s\<lparr>activeView := OcrView\<rparr>)"
proof -
  from assms have "or_else (getNestedValue (mapping s) path) (Arr []) = Arr []"
    by (auto simp: or_else_def)
  then have "handleExtractedFieldClick path s = Inr (s, None)"
    by (simp add: handleExtractedFieldClick_def)
  then show ?thesis
    by (simp add: highlightField_def highlightField_settled_def)
qed


theorem C2_witness:
  "highlightField ''carrier'' True scenario_state = Inr (scenario_state, None)"
proof -
  have "getNestedValue (mapping scenario_state) ''carrier'' = Arr []
        \<or> \<not> truthy (getNestedValue (mapping scenario_state) ''carrier'')"
    by (simp add: scenario_state_def base_state_def getNestedValue_def nested_step_def)
  from C2_empty_index_set_is_noop [OF this, of True] show ?thesis by simp
qed


section \<open>Properties of the poller\<close>

lemma poll_tick_nonterminal:
  assumes "\<not> no_id s" and "env_pollingAttemptCount (t_env t) < MAX_POLLING_ATTEMPTS"
    and "\<not> terminal status"
  shows "poll_tick t (StatusOk status fetched) s
           = s\<lparr>pollingAttemptCount := Suc (pollingAttemptCount s), extractionStatus := ''processing''\<rparr>"
  using assms
  by (auto simp: poll_tick_def checkExtractionStatus_def no_id_def terminal_def Let_def)

lemma poll_tick_throws_below:
  assumes "\<not> no_id s" and "env_pollingAttemptCount (t_env t) < MAX_POLLING_ATTEMPTS"
  shows "poll_tick t StatusThrows s = s\<lparr>pollingAttemptCount := Suc (pollingAttemptCount s)\<rparr>"
  using assms
  by (auto simp: poll_tick_def checkExtractionStatus_def no_id_def Let_def)

lemma poll_tick_throws_at_budget:
  assumes "\<not> no_id s" and "MAX_POLLING_ATTEMPTS \<le> env_pollingAttemptCount (t_env t)"
  shows "poll_tick t StatusThrows s
           = stop_status_timer (env_scope (t_env t))
               (s\<lparr>pollingAttemptCount := Suc (pollingAttemptCount s), extractionStatus := ''failed''\<rparr>)"
  using assms
  by (auto simp: poll_tick_def checkExtractionStatus_def no_id_def Let_def)

lemma stop_status_timer_fields:
  "extractionStatus (stop_status_timer k s) = extractionStatus s"
  "pollingAttemptCount (stop_status_timer k s) = pollingAttemptCount s"
  by (simp_all add: stop_status_timer_def clearInterval_def split: option.splits)

lemma stop_status_timer_not_live:
  assumes "statusCheckTimer s k = Some tid"
  shows "\<not> live tid (stop_status_timer k s)"
  using assms by (auto simp: stop_status_timer_def clearInterval_def live_def)

lemma run_ticks_nonterminal:
  assumes "find (\<lambda>t. t_id t = tid) (timers s) = Some t" and "\<not> t_rerun t"
    and "env_pollingAttemptCount (t_env t) < MAX_POLLING_ATTEMPTS"
    and "\<not> no_id s"
    and "\<forall>r \<in> set resps. \<not> is_terminal r \<and> \<not> throws r"
  shows "run_ticks tid resps s
           = s\<lparr>pollingAttemptCount := pollingAttemptCount s + length resps,
               extractionStatus := (if resps = [] then extractionStatus s else ''processing'')\<rparr>"
  using assms
proof (induction resps arbitrary: s)
  case Nil
  then show ?case by (simp add: run_ticks_def)
next
  case (Cons r rs)
  from Cons.prems(5) obtain status fetched where r: "r = StatusOk status fetched" "\<not> terminal status"
    by (cases r) auto
  let ?s1 = "s\<lparr>pollingAttemptCount := Suc (pollingAttemptCount s), extractionStatus := ''processing''\<rparr>"
  have step: "tick tid r s = ?s1"
    using Cons.prems r by (simp add: tick_def poll_tick_nonterminal)
  have "run_ticks tid (r # rs) s = run_ticks tid rs ?s1"
    by (simp add: run_ticks_def step)
  also have "\<dots> = ?s1\<lparr>pollingAttemptCount := pollingAttemptCount ?s1 + length rs,
               extractionStatus := (if rs = [] then extractionStatus ?s1 else ''processing'')\<rparr>"
    using Cons.prems by (intro Cons.IH) (simp_all add: no_id_def)
  finally show ?case by simp
qed

lemma find_append_new:
  assumes "\<forall>t \<in> set ts. t_id t \<noteq> tid" and "t_id t = tid"
  shows "find (\<lambda>t. t_id t = tid) (filter q ts @ [t]) = Some t"
  using assms by (induction ts) auto

lemma startExtraction_timer:
  assumes "\<not> no_id s" and "\<forall>t \<in> set (timers s). t_id t < nextTimerId s"
  shows "find (\<lambda>t. t_id t = nextTimerId s) (timers (click_startExtraction (PostOk ''success'') s))
           = Some \<lparr>t_id = nextTimerId s, t_rerun = False, t_env = render_env s\<rparr>
       \<and> docId (click_startExtraction (PostOk ''success'') s) = docId s
       \<and> extractionStatus (click_startExtraction (PostOk ''success'') s) = ''processing''
       \<and> pollingAttemptCount (click_startExtraction (PostOk ''success'') s) = 0"
proof -
  have ne: "\<forall>t \<in> set (timers s). t_id t \<noteq> nextTimerId s"
    using assms(2) by auto
  show ?thesis
    using assms(1) find_append_new [OF ne, of _ "\<lambda>_. True"] find_append_new [OF ne]
    by (simp add: click_startExtraction_def startExtraction_def startPolling_def rerender_def
        setInterval_def clearInterval_def Let_def split: option.splits)
qed

lemma scenario_poll_facts:
  "\<not> no_id scenario_state" "pollingAttemptCount scenario_state = 0"
  "timers scenario_state = []" "nextTimerId scenario_state = 0"
  by (simp_all add: scenario_state_def base_state_def no_id_def)

text \<open>
  Claim C3: what the code does where the claim wants the timer stopped. The tick tests
  the attempt count of the render that started the polling, not the counter it
  increments. When the extraction is started from a render whose count is below the
  maximum, any number of ticks with a non-terminal status, 20 and more included, leaves
  the timer live; the status stays \<open>processing\<close> and the counter grows by one per tick.
\<close>

theorem C3_budget_does_not_stop_fresh_poller:
  assumes "\<not> no_id s" and "pollingAttemptCount s < MAX_POLLING_ATTEMPTS"
    and "\<forall>t \<in> set (timers s). t_id t < nextTimerId s"
    and "\<forall>r \<in> set resps. \<not> is_terminal r \<and> \<not> throws r" and "resps \<noteq> []"
  shows "live (nextTimerId s)
           (run_ticks (nextTimerId s) resps (click_startExtraction (PostOk ''success'') s))
       \<and> extractionStatus
           (run_ticks (nextTimerId s) resps (click_startExtraction (PostOk ''success'') s))
           = ''processing''
       \<and> pollingAttemptCount
           (run_ticks (nextTimerId s) resps (click_startExtraction (PostOk ''success'') s))
           = length resps"
proof -
  let ?s0 = "click_startExtraction (PostOk ''success'') s"
  let ?t = "\<lparr>t_id = nextTimerId s, t_rerun = False, t_env = render_env s\<rparr>"
  from startExtraction_timer [OF assms(1,3)]
  have f: "find (\<lambda>t. t_id t = nextTimerId s) (timers ?s0) = Some ?t"
    and d: "\<not> no_id ?s0" and c: "pollingAttemptCount ?s0 = 0"
    using assms(1) by (simp_all add: no_id_def)
  have e: "env_pollingAttemptCount (t_env ?t) < MAX_POLLING_ATTEMPTS"
    using assms(2) by (simp add: render_env_def)
  have run: "run_ticks (nextTimerId s) resps ?s0
               = ?s0\<lparr>pollingAttemptCount := pollingAttemptCount ?s0 + length resps,
                     extractionStatus := (if resps = [] then extractionStatus ?s0 else ''processing'')\<rparr>"
    by (rule run_ticks_nonterminal [OF f _ e d assms(4)]) simp
  from f have "?t \<in> set (timers ?s0)" by (auto simp: find_Some_iff in_set_conv_nth)
  then have "live (nextTimerId s) ?s0" by (force simp: live_def)
  with run c assms(5) show ?thesis by (simp add: live_def)
qed

theorem C3_witness:
  "live 0 (run_ticks 0 (replicate 20 (StatusOk ''processing'' FetchThrows))
             (click_startExtraction (PostOk ''success'') scenario_state))
   \<and> extractionStatus (run_ticks 0 (replicate 20 (StatusOk ''processing'' FetchThrows))
                         (click_startExtraction (PostOk ''success'') scenario_state))
       = ''processing''
   \<and> pollingAttemptCount (run_ticks 0 (replicate 20 (StatusOk ''processing'' FetchThrows))
                            (click_startExtraction (PostOk ''success'') scenario_state))
       = MAX_POLLING_ATTEMPTS"
proof -
  have r: "\<forall>r \<in> set (replicate 20 (StatusOk ''processing'' FetchThrows)).
             \<not> is_terminal r \<and> \<not> throws r"
    by (simp add: terminal_def)
  have n: "replicate 20 (StatusOk ''processing'' FetchThrows) \<noteq> []" by simp
  have c: "pollingAttemptCount scenario_state < MAX_POLLING_ATTEMPTS"
    by (simp add: scenario_poll_facts MAX_POLLING_ATTEMPTS_def)
  have t: "\<forall>t \<in> set (timers scenario_state). t_id t < nextTimerId scenario_state"
    by (simp add: scenario_poll_facts)
  from C3_budget_does_not_stop_fresh_poller [OF scenario_poll_facts(1) c t r n] show ?thesis
    by (simp add: scenario_poll_facts MAX_POLLING_ATTEMPTS_def)
qed


text \<open>
  Claim C4: what the code does where the claim wants the earlier timer cancelled.
  \<open>rerunOcr\<close> adds its timer to the live ones and cancels none, so two reruns leave two
  live timers.
\<close>

theorem C4_rerun_cancels_no_timer:
  assumes "\<not> no_id s"
  shows "timers (rerunOcr env (PostOk status) s)
           = timers s @ [\<lparr>t_id = nextTimerId s, t_rerun = True, t_env = env\<rparr>]"
  using assms by (simp add: rerunOcr_def setInterval_def Let_def)

theorem C4_witness:
  "map t_id (timers (click_rerunOcr (PostOk []) (click_rerunOcr (PostOk []) scenario_state)))
     = [0, 1]"
proof -
  let ?s1 = "click_rerunOcr (PostOk []) scenario_state"
  have one: "timers (rerunOcr (render_env scenario_state) (PostOk []) scenario_state)
               = [\<lparr>t_id = 0, t_rerun = True, t_env = render_env scenario_state\<rparr>]"
    using C4_rerun_cancels_no_timer [OF scenario_poll_facts(1), of "render_env scenario_state" "[]"]
    by (simp add: scenario_poll_facts)
  have s1: "\<not> no_id ?s1" "nextTimerId ?s1 = 1"
    by (simp_all add: click_rerunOcr_def rerunOcr_def rerender_def setInterval_def no_id_def
        scenario_state_def base_state_def Let_def)
  have t1: "timers ?s1 = [\<lparr>t_id = 0, t_rerun = True, t_env = render_env scenario_state\<rparr>]"
    using one by (simp add: click_rerunOcr_def rerender_def)
  from C4_rerun_cancels_no_timer [OF s1(1), of "render_env ?s1" "[]"] show ?thesis
    by (simp add: click_rerunOcr_def [of _ ?s1] rerender_def t1 s1)
qed


text \<open>
  \<open>startPolling\<close> cancels the timer that \<^verbatim>\<open>statusCheckTimer\<close> of its own render holds. After
  a tick the component has been rendered again, and a second start finds the variable of
  the new render empty: the first timer stays live.
\<close>

lemma startPolling_next_render_keeps_old_timer:
  "map t_id (timers (click_startExtraction (PostOk ''success'')
       (tick 0 (StatusOk ''processing'' FetchThrows)
          (click_startExtraction (PostOk ''success'') scenario_state)))) = [0, 1]"
  by code_simp


lemma run_ticks_throws_below:
  assumes "find (\<lambda>t'. t_id t' = tid) (timers s) = Some t" and "\<not> t_rerun t"
    and "env_pollingAttemptCount (t_env t) < MAX_POLLING_ATTEMPTS"
    and "\<not> no_id s"
    and "\<forall>r \<in> set resps. throws r"
  shows "run_ticks tid resps s = s\<lparr>pollingAttemptCount := pollingAttemptCount s + length resps\<rparr>"
  using assms
proof (induction resps arbitrary: s)
  case Nil
  then show ?case by (simp add: run_ticks_def)
next
  case (Cons r rs)
  from Cons.prems(5) have r: "r = StatusThrows" by (cases r) auto
  let ?s1 = "s\<lparr>pollingAttemptCount := Suc (pollingAttemptCount s)\<rparr>"
  have step: "tick tid r s = ?s1"
    using Cons.prems r by (simp add: tick_def poll_tick_throws_below)
  have "run_ticks tid (r # rs) s = run_ticks tid rs ?s1"
    by (simp add: run_ticks_def step)
  also have "\<dots> = ?s1\<lparr>pollingAttemptCount := pollingAttemptCount ?s1 + length rs\<rparr>"
    using Cons.prems by (intro Cons.IH) (simp_all add: no_id_def)
  finally show ?case by simp
qed

lemma rerun_tick_throws:
  assumes "\<not> no_id s"
  shows "rerun_tick t StatusThrows s = s"
  using assms by (auto simp: rerun_tick_def checkExtractionStatus_def no_id_def)

text \<open>
  Claim C5, as amended. A tick of the poller that \<open>startPolling\<close> starts is counted even
  when its status query throws. The tick tests the attempt count of the render that
  started the poller; the claim is about the attempt counter. Where the two agree that
  the budget is not reached (both below the maximum, the failing ticks counted in),
  failing ticks, one or several, change nothing but the counter: status and timers stay
  as they are. Where the two agree that the budget is reached (both at the maximum or
  above, this tick counted in), a failing tick sets the status to \<open>failed\<close> and stops the
  timer. Where they disagree nothing is stated. A failing tick of the poller that
  \<open>rerunOcr\<close> starts changes nothing at all: it is not counted.
\<close>

theorem C5_failing_tick:
  assumes "\<not> no_id s" and "find (\<lambda>t'. t_id t' = tid) (timers s) = Some t"
  shows "(\<not> t_rerun t
            \<longrightarrow> pollingAttemptCount (tick tid StatusThrows s) = Suc (pollingAttemptCount s))
       \<and> (\<not> t_rerun t \<and> (\<forall>r \<in> set resps. throws r)
           \<and> env_pollingAttemptCount (t_env t) < MAX_POLLING_ATTEMPTS
           \<and> pollingAttemptCount s + length resps < MAX_POLLING_ATTEMPTS
            \<longrightarrow> run_ticks tid resps s
                  = s\<lparr>pollingAttemptCount := pollingAttemptCount s + length resps\<rparr>)
       \<and> (\<not> t_rerun t
           \<and> MAX_POLLING_ATTEMPTS \<le> env_pollingAttemptCount (t_env t)
           \<and> MAX_POLLING_ATTEMPTS \<le> Suc (pollingAttemptCount s)
            \<longrightarrow> extractionStatus (tick tid StatusThrows s) = ''failed''
                \<and> (statusCheckTimer s (env_scope (t_env t)) = Some tid
                     \<longrightarrow> \<not> live tid (tick tid StatusThrows s)))
       \<and> (t_rerun t \<longrightarrow> tick tid StatusThrows s = s)"
proof (intro conjI impI)
  assume "\<not> t_rerun t"
  then have "tick tid StatusThrows s = poll_tick t StatusThrows s"
    using assms(2) by (simp add: tick_def)
  then show "pollingAttemptCount (tick tid StatusThrows s) = Suc (pollingAttemptCount s)"
    using assms(1)
    by (cases "env_pollingAttemptCount (t_env t) < MAX_POLLING_ATTEMPTS")
      (simp_all add: poll_tick_throws_below poll_tick_throws_at_budget stop_status_timer_fields)
next
  assume "\<not> t_rerun t \<and> (\<forall>r \<in> set resps. throws r)
           \<and> env_pollingAttemptCount (t_env t) < MAX_POLLING_ATTEMPTS
           \<and> pollingAttemptCount s + length resps < MAX_POLLING_ATTEMPTS"
  then show "run_ticks tid resps s
               = s\<lparr>pollingAttemptCount := pollingAttemptCount s + length resps\<rparr>"
    using run_ticks_throws_below [OF assms(2) _ _ assms(1)] by blast
next
  assume h: "\<not> t_rerun t
           \<and> MAX_POLLING_ATTEMPTS \<le> env_pollingAttemptCount (t_env t)
           \<and> MAX_POLLING_ATTEMPTS \<le> Suc (pollingAttemptCount s)"
  then have t: "tick tid StatusThrows s
                  = stop_status_timer (env_scope (t_env t))
                      (s\<lparr>pollingAttemptCount := Suc (pollingAttemptCount s),
                         extractionStatus := ''failed''\<rparr>)"
    using assms by (simp add: tick_def poll_tick_throws_at_budget)
  show "extractionStatus (tick tid StatusThrows s) = ''failed''"
    by (simp add: t stop_status_timer_fields)
  assume "statusCheckTimer s (env_scope (t_env t)) = Some tid"
  then show "\<not> live tid (tick tid StatusThrows s)"
    unfolding t by (intro stop_status_timer_not_live) simp
next
  assume "t_rerun t"
  then show "tick tid StatusThrows s = s"
    using assms by (simp add: tick_def rerun_tick_throws)
qed

lemma retry_facts:
  "map_option (\<lambda>t. (t_rerun t, env_pollingAttemptCount (t_env t), env_scope (t_env t)))
     (find (\<lambda>t'. t_id t' = 1) (timers retry_poll)) = Some (False, 20, 1)"
  "statusCheckTimer retry_poll 1 = Some 1" "\<not> no_id retry_poll" "pollingAttemptCount retry_poll = 19"
  by code_simp+

lemma fresh_facts:
  "map_option (\<lambda>t. (t_rerun t, env_pollingAttemptCount (t_env t)))
     (find (\<lambda>t'. t_id t' = 0) (timers fresh_poll)) = Some (False, 0)"
  "\<not> no_id fresh_poll" "pollingAttemptCount fresh_poll = 0" "extractionStatus fresh_poll = ''processing''"
  "map t_id (timers fresh_poll) = [0]"
  by code_simp+

lemma rerun_facts:
  "map_option t_rerun (find (\<lambda>t'. t_id t' = 0) (timers rerun_poll)) = Some True"
  "\<not> no_id rerun_poll" "pollingAttemptCount rerun_poll = 0"
  by code_simp+


theorem C5_witness:
  "pollingAttemptCount (tick 0 StatusThrows fresh_poll) = 1
   \<and> extractionStatus (run_ticks 0 (replicate 3 StatusThrows) fresh_poll) = ''processing''
   \<and> pollingAttemptCount (run_ticks 0 (replicate 3 StatusThrows) fresh_poll) = 3
   \<and> live 0 (run_ticks 0 (replicate 3 StatusThrows) fresh_poll)
   \<and> extractionStatus (tick 1 StatusThrows retry_poll) = ''failed''
   \<and> \<not> live 1 (tick 1 StatusThrows retry_poll)
   \<and> tick 0 StatusThrows rerun_poll = rerun_poll"
proof -
  from fresh_facts(1) obtain t0 where t0: "find (\<lambda>t'. t_id t' = 0) (timers fresh_poll) = Some t0"
    "\<not> t_rerun t0" "env_pollingAttemptCount (t_env t0) = 0"
    by auto
  from retry_facts(1) obtain t1 where t1: "find (\<lambda>t'. t_id t' = 1) (timers retry_poll) = Some t1"
    "\<not> t_rerun t1" "env_pollingAttemptCount (t_env t1) = 20" "env_scope (t_env t1) = 1"
    by auto
  from rerun_facts(1) obtain t2 where t2: "find (\<lambda>t'. t_id t' = 0) (timers rerun_poll) = Some t2"
    "t_rerun t2"
    by auto
  have l: "live 0 fresh_poll"
    using fresh_facts(5) by (simp add: live_def) (metis list.set_intros(1) list.set_map)
  from C5_failing_tick [OF fresh_facts(2) t0(1), of "replicate 3 StatusThrows"]
    C5_failing_tick [OF retry_facts(3) t1(1)] C5_failing_tick [OF rerun_facts(2) t2(1)]
    t0 t1 t2 l retry_facts(2,4) fresh_facts(3,4)
  show ?thesis by (simp add: MAX_POLLING_ATTEMPTS_def live_def)
qed


text \<open>
  The claim C5 as it is stated fails at the twentieth tick of a retried extraction. The
  first run has counted 20 attempts and failed; the retry resets the counter and its
  poller sees 19 answers \<^verbatim>\<open>processing\<close>. The twentieth status query throws: the counter
  and the count the tick tests have both reached the maximum, and the tick sets the
  status to \<open>failed\<close> and stops the timer. And a failing tick of the poller of
  \<open>rerunOcr\<close> is not counted.
\<close>

theorem C5_counterexample_failed_at_twentieth_tick:
  "extractionStatus retry_base = ''failed''
   \<and> pollingAttemptCount retry_base = MAX_POLLING_ATTEMPTS
   \<and> extractionStatus retry_poll = ''processing''
   \<and> pollingAttemptCount retry_poll = 19
   \<and> map t_id (timers retry_poll) = [1]
   \<and> extractionStatus (tick 1 StatusThrows retry_poll) = ''failed''
   \<and> pollingAttemptCount (tick 1 StatusThrows retry_poll) = MAX_POLLING_ATTEMPTS
   \<and> map t_id (timers (tick 1 StatusThrows retry_poll)) = []
   \<and> map t_id (timers rerun_poll) = [0]
   \<and> pollingAttemptCount (tick 0 StatusThrows rerun_poll) = pollingAttemptCount rerun_poll"
  by code_simp


section \<open>Properties of the heuristic mapping\<close>

lemma zip_upt_nth: "zip ws [0 ..< length ws] = map (\<lambda>i. (ws ! i, i)) [0 ..< length ws]"
  by (rule nth_equalityI) simp_all

lemma filter_marked:
  "filter (\<lambda>x. x \<noteq> - 1) (map (\<lambda>i. if q i then int i else - 1) xs) = map int (filter q xs)"
  by (induction xs) auto

lemma findMatchingIndices_eq:
  assumes "value \<noteq> []"
  shows "findMatchingIndices value ws = map int (tokens_containing value ws)"
proof (cases "ws = []")
  case True
  then show ?thesis by (simp add: findMatchingIndices_def tokens_containing_def)
next
  case False
  have "map (\<lambda>(result, index).
               if sublist (normalize value) (normalize (content result)) then int index else - 1)
          (zip ws [0 ..< length ws])
        = map (\<lambda>i. if sublist (normalize value) (normalize (content (ws ! i))) then int i else - 1)
            [0 ..< length ws]"
    by (subst zip_upt_nth) (simp add: comp_def)
  with assms False show ?thesis
    by (simp add: findMatchingIndices_def tokens_containing_def filter_marked)
qed

lemma map_of_obj_set: "map_of (obj_set m k v) k' = (if k' = k then Some v else map_of m k')"
  by (induction m k v rule: obj_set.induct) auto

lemma map_of_foldl_other:
  assumes "k \<notin> nm ` set fs"
  shows "map_of (foldl (\<lambda>m f. obj_set m (nm f) (vl f)) acc fs) k = map_of acc k"
  using assms by (induction fs arbitrary: acc) (auto simp: map_of_obj_set)

lemma map_of_foldl_last:
  assumes "nm f \<notin> nm ` set post"
  shows "map_of (foldl (\<lambda>m f. obj_set m (nm f) (vl f)) acc (pre @ f # post)) (nm f) = Some (vl f)"
  by (simp add: map_of_foldl_other [OF assms] map_of_obj_set)

lemma generateSimpleMapping_last:
  assumes "field_name f \<notin> field_name ` set post"
  shows "getProp (generateSimpleMapping (pre @ f # post) info ws) (field_name f)
           = field_mapping f info ws"
  using map_of_foldl_last [OF assms, of "\<lambda>f. field_mapping f info ws" "[]" pre]
  by (simp add: generateSimpleMapping_def)

lemma fetch_fallback_mapping:
  assumes "\<not> no_id s" and "r_status r = Some ''completed''" and "\<not> truthy (r_mapping r)"
  shows "mapping (fetchExtractionInfo env (FetchOk r) s)
           = generateSimpleMapping (env_appFields env) (env_extractedInfo env) (env_ocrWords env)"
  using assms
  by (simp add: fetchExtractionInfo_def Let_def split: option.splits)

text \<open>
  Claim C6, as amended. A completed answer of the backend without a mapping makes
  \<open>fetchExtractionInfo\<close> set the mapping of the fallback. The fallback reads the fields,
  the values and the words of the render that called the fetch. Where these are the ones
  the state holds after the fetch, a field of type \<^verbatim>\<open>string\<close> gets the empty index set, and
  a field whose type is none of \<^verbatim>\<open>string\<close>, \<^verbatim>\<open>map\<close> and \<^verbatim>\<open>list\<close> and whose value is a
  non-empty string gets exactly the indices of the tokens whose content, with the white
  space removed and in lower case, contains the value normalised in the same way. Of
  several fields with one name the last decides. Where the fallback reads other fields,
  values or words than the state holds, nothing is stated.
\<close>

theorem C6_fallback_mapping_entries:
  assumes "\<not> no_id s" and "r_status r = Some ''completed''" and "\<not> truthy (r_mapping r)"
    and "s' = fetchExtractionInfo env (FetchOk r) s"
    and "env_appFields env = appFields s'" and "env_extractedInfo env = extractedInfo s'"
    and "env_ocrWords env = ocrWords s'"
    and "appFields s' = pre @ f # post" and "field_name f \<notin> field_name ` set post"
  shows "(field_type f = ''string'' \<longrightarrow> getProp (mapping s') (field_name f) = Arr [])
       \<and> (field_type f \<notin> {''string'', ''map'', ''list''}
            \<and> info_get (extractedInfo s') (field_name f) = Str value \<and> value \<noteq> []
            \<longrightarrow> getProp (mapping s') (field_name f)
                  = Arr (map (\<lambda>i. Number (int i)) (tokens_containing value (ocrWords s'))))"
proof -
  have "mapping s' = generateSimpleMapping (pre @ f # post) (extractedInfo s') (ocrWords s')"
    using fetch_fallback_mapping [OF assms(1-3), of env] assms(4-8) by simp
  then have "getProp (mapping s') (field_name f) = field_mapping f (extractedInfo s') (ocrWords s')"
    by (simp add: generateSimpleMapping_last [OF assms(9)])
  then show ?thesis
    using findMatchingIndices_eq [of "value" "ocrWords s'"]
    by (auto simp: field_mapping_def comp_def)
qed

theorem C6_witness:
  "getProp (mapping acme_fetched) ''company'' = Arr []
   \<and> getProp (mapping acme_fetched) ''vendor'' = Arr [Number 0]"
proof -
  have a: "\<not> no_id acme_state" "r_status acme_response = Some ''completed''"
    "\<not> truthy (r_mapping acme_response)"
    by (simp_all add: acme_state_def acme_response_def base_state_def no_id_def)
  have k: "appFields acme_fetched = [company_field, vendor_field]"
    "extractedInfo acme_fetched = acme_info" "ocrWords acme_fetched = acme_words"
    by (simp_all add: acme_fetched_def fetchExtractionInfo_def acme_state_def acme_response_def
        base_state_def no_id_def stop_status_timer_def render_env_def Let_def)
  have e: "env_appFields (render_env acme_state) = appFields acme_fetched"
    "env_extractedInfo (render_env acme_state) = extractedInfo acme_fetched"
    "env_ocrWords (render_env acme_state) = ocrWords acme_fetched"
    by (simp_all add: k) (simp_all add: render_env_def acme_state_def)
  have f1: "appFields acme_fetched = [] @ company_field # [vendor_field]"
    and f2: "appFields acme_fetched = [company_field] @ vendor_field # []"
    by (simp_all add: k)
  have n1: "field_name company_field \<notin> field_name ` set [vendor_field]"
    and n2: "field_name vendor_field \<notin> field_name ` set []"
    by (simp_all add: company_field_def vendor_field_def)
  have n: "normalize ''ACME Corp'' = ''acmecorp''" "normalize ''Acme Corp.'' = ''acmecorp.''"
    "normalize ''Total'' = ''total''"
    by code_simp+
  have s1: "sublist ''acmecorp'' ''acmecorp.''"
    by (rule prefix_imp_sublist) simp
  have s2: "\<not> sublist ''acmecorp'' ''total''"
    by code_simp
  have t: "tokens_containing ''ACME Corp'' acme_words = [0]"
    by (simp add: tokens_containing_def acme_words_def n s1 s2 upt_rec)
  have v: "field_type vendor_field \<notin> {''string'', ''map'', ''list''}
           \<and> info_get acme_info (field_name vendor_field) = Str ''ACME Corp''
           \<and> ''ACME Corp'' \<noteq> []"
    by (simp add: vendor_field_def acme_info_def info_get_def)
  have c: "field_type company_field = ''string''" "field_name company_field = ''company''"
    "field_name vendor_field = ''vendor''"
    by (simp_all add: company_field_def vendor_field_def)
  from C6_fallback_mapping_entries [OF a acme_fetched_def e f1 n1] C6_fallback_mapping_entries [OF a acme_fetched_def e f2 n2, of "''ACME Corp''"]
    v c t k
  show ?thesis by simp
qed


text \<open>
  The claim C6 as it is stated fails for a field of type \<^verbatim>\<open>string\<close>: the answer holds no
  mapping, the fallback reads the fields, values and words that the state holds, the
  value is \<^verbatim>\<open>ACME Corp\<close> and token 0, \<^verbatim>\<open>Acme Corp.\<close>, contains it after normalisation, yet
  the fallback maps the field to no token.
\<close>

theorem C6_counterexample_string_field:
  "r_status acme_response = Some ''completed'' \<and> r_mapping acme_response = Undefined
   \<and> appFields acme_fetched = [company_field, vendor_field]
   \<and> field_type company_field = ''string''
   \<and> info_get (extractedInfo acme_fetched) (field_name company_field) = Str ''ACME Corp''
   \<and> tokens_containing ''ACME Corp'' (ocrWords acme_fetched) = [0]
   \<and> getProp (mapping acme_fetched) (field_name company_field) = Arr []"
  by code_simp

text \<open>
  On the first load the fetch is called by the first render, whose fields, values and
  words are still empty: the fallback then sets the empty mapping, whatever the answer
  holds.
\<close>

lemma fallback_on_first_load_reads_empty_schema:
  "mapping (fetchExtractionInfo (render_env base_state) (FetchOk acme_response)
              (base_state\<lparr>ocrWords := acme_words\<rparr>)) = Obj []"
  by code_simp


section \<open>Properties of the edit session\<close>

text \<open>
  Leaving edit mode with the save button makes the buffer the live value and, after the
  effect, the new baseline, and schedules one call of \<^verbatim>\<open>onSave\<close>; when the timeout fires,
  one save request is sent.
\<close>

lemma cancelEdit_keeps_live: "extractedInfo (cancelEdit s) = extractedInfo s"
  by (simp add: cancelEdit_def)

lemma cancel_after_leaf_edit:
  "extractedInfo (sync_effect (cancelEdit (updateFieldValue name v s))) = obj_set (editedInfo s) name v
   \<and> originalInfo (sync_effect (cancelEdit (updateFieldValue name v s))) = obj_set (editedInfo s) name v
   \<and> editedInfo (sync_effect (cancelEdit (updateFieldValue name v s))) = obj_set (editedInfo s) name v"
  by (simp add: sync_effect_def cancelEdit_def updateFieldValue_def Let_def)

lemma save_commits_buffer:
  assumes "editMode s"
  shows "extractedInfo (sync_effect (toggleEditMode s)) = editedInfo s
       \<and> originalInfo (sync_effect (toggleEditMode s)) = editedInfo s
       \<and> \<not> editMode (sync_effect (toggleEditMode s))
       \<and> pendingSaves (sync_effect (toggleEditMode s)) = pendingSaves s @ [render_env s]"
  using assms by (simp add: sync_effect_def toggleEditMode_def)

lemma save_timeout_one_request:
  assumes "\<not> no_id s" and "pendingSaves s = [env]"
  shows "length (saveRequests (run_save_timeout resp fetched s)) = Suc (length (saveRequests s))
       \<and> pendingSaves (run_save_timeout resp fetched s) = []"
  using assms
  by (auto simp: run_save_timeout_def saveExtractedInfo_def fetchExtractionInfo_def no_id_def
      stop_status_timer_def clearInterval_def Let_def
      split: post_response.splits fetch_response.splits option.splits)

lemma updateMapFieldValue_keeps_live:
  "extractedInfo (updateMapFieldValue f sub v s) = extractedInfo s"
  by (simp add: updateMapFieldValue_def Let_def)

lemma updateListItemProperty_keeps_live:
  "updateListItemProperty f i p v s = Inr s' \<Longrightarrow> extractedInfo s' = extractedInfo s"
  by (auto simp: updateListItemProperty_def Let_def split: sum.splits)

lemma updateListItem_keeps_live:
  "updateListItem f i v s = Inr s' \<Longrightarrow> extractedInfo s' = extractedInfo s"
  by (auto simp: updateListItem_def split: sum.splits)

lemma editing_state_facts: "editMode editing_state" "extractedInfo editing_state = shipper_info"
  "editedInfo editing_state = shipper_info" "originalInfo editing_state = shipper_info"
  by (simp_all add: editing_state_def view_state_def toggleEditMode_def sync_effect_def base_state_def)

text \<open>
  Claim C8: what the code does where the claim wants the snapshot restored.
  \<open>updateFieldValue\<close> has pushed the edited buffer to the parent, and \<open>cancelEdit\<close> resets
  the buffer of the child only. After an edit of the top-level leaf \<^verbatim>\<open>carrier\<close> and a
  cancel, the live value tree holds the edited value, not the snapshot taken when edit
  mode was entered; the effect then takes the edited tree as the buffer and the baseline.
\<close>

theorem C8_cancel_keeps_pushed_leaf_edit:
  "editMode editing_state \<and> originalInfo editing_state = shipper_info
   \<and> extractedInfo (sync_effect (cancelEdit (updateFieldValue ''carrier'' (Str ''Sagawa'') editing_state)))
       = [(''carrier'', Str ''Sagawa''), (''shipper'', Obj [(''city'', Str ''Osaka'')]),
          (''items'', Arr [Obj [(''name'', Str ''box'')]])]
   \<and> extractedInfo (sync_effect (cancelEdit (updateFieldValue ''carrier'' (Str ''Sagawa'') editing_state)))
       \<noteq> shipper_info"
  by (simp add: editing_state_facts cancel_after_leaf_edit shipper_info_def)

text \<open>
  Claim C9: what the code does where the claim wants every leaf change propagated. A
  change of a leaf under a map field or in a list row reaches the buffer of the child
  only: the live value tree of the parent is the one from before the change. A change of
  a top-level leaf does reach it.
\<close>

theorem C9_nested_edits_not_propagated:
  "extractedInfo (updateMapFieldValue ''shipper'' ''city'' (Str ''Kyoto'') editing_state) = shipper_info
   \<and> info_get (editedInfo (updateMapFieldValue ''shipper'' ''city'' (Str ''Kyoto'') editing_state)) ''shipper''
       = Obj [(''city'', Str ''Kyoto'')]
   \<and> map_sum id extractedInfo
        (updateListItemProperty ''items'' 0 ''name'' (Str ''crate'') editing_state) = Inr shipper_info
   \<and> map_sum id (\<lambda>s. info_get (editedInfo s) ''items'')
        (updateListItemProperty ''items'' 0 ''name'' (Str ''crate'') editing_state)
       = Inr (Arr [Obj [(''name'', Str ''crate'')]])
   \<and> extractedInfo (updateFieldValue ''carrier'' (Str ''Sagawa'') editing_state)
       = editedInfo (updateFieldValue ''carrier'' (Str ''Sagawa'') editing_state)"
  by code_simp

text \<open>
  A consequence: after an edit of a map leaf alone, the save request that the save button
  schedules carries the value tree from before the edit.
\<close>

lemma save_after_map_edit_posts_old_value:
  "map fst (saveRequests (run_save_timeout (PostOk ''success'') FetchThrows
      (sync_effect (toggleEditMode
         (updateMapFieldValue ''shipper'' ''city'' (Str ''Kyoto'') editing_state)))))
     = [shipper_info]"
  by code_simp


section \<open>Properties of the bounding boxes\<close>

lemma page_boxes_length:
  "length (page_boxes multipage ws i) = length (currentPageWords multipage ws i)"
  by (simp add: page_boxes_def Let_def)

lemma page_boxes_nth:
  assumes "k < length (currentPageWords multipage ws i)"
  shows "page_boxes multipage ws i ! k = word_box (currentPageWords multipage ws i ! k) k"
  using assms by (simp add: page_boxes_def Let_def)

lemma word_box_degenerate:
  assumes "points word = None \<or> (\<exists>pts. points word = Some pts \<and> length pts < 4)"
  shows "word_box word k =
           \<lparr>box_id = k, top = Fin 0, left = Fin 0, width = Fin 0, height = Fin 0,
            box_text = content word\<rparr>"
  using assms by (auto simp: word_box_def)

text \<open>
  Claim C7. For any shown page and any list of words, the bounding-box computation yields
  one box per word of the page, and the box of a word whose geometry is absent or has
  fewer than four vertices has top, left, width and height 0. The computation is a total
  function: no branch of it raises.
\<close>

theorem C7_degenerate_geometry_zero_box:
  assumes "i = (case pageIndex of Some j \<Rightarrow> j | None \<Rightarrow> currentPageIndex s)"
    and "k < length (currentPageWords (isMultipage s) (ocrWords s) i)"
    and "w = currentPageWords (isMultipage s) (ocrWords s) i ! k"
    and "points w = None \<or> (\<exists>pts. points w = Some pts \<and> length pts < 4)"
  shows "length (boundingBoxes (updateBoundingBoxesForCurrentPage pageIndex s))
           = length (currentPageWords (isMultipage s) (ocrWords s) i)
       \<and> boundingBoxes (updateBoundingBoxesForCurrentPage pageIndex s) ! k
           = \<lparr>box_id = k, top = Fin 0, left = Fin 0, width = Fin 0, height = Fin 0,
              box_text = content w\<rparr>"
  using assms
  by (simp add: updateBoundingBoxesForCurrentPage_def page_boxes_length page_boxes_nth
      word_box_degenerate)

lemma scenario_page1:
  "currentPageWords (isMultipage scenario_state) (ocrWords scenario_state) 0
     = take 5 scenario_words"
  by (simp add: currentPageWords_def scenario_state_def base_state_def scenario_words_def)

theorem C7_witness:
  "boundingBoxes (updateBoundingBoxesForCurrentPage None scenario_state) ! 4
     = \<lparr>box_id = 4, top = Fin 0, left = Fin 0, width = Fin 0, height = Fin 0,
        box_text = ''2024''\<rparr>
   \<and> length (boundingBoxes (updateBoundingBoxesForCurrentPage None scenario_state)) = 5"
proof -
  have i: "(0::int) = (case None of Some j \<Rightarrow> j | None \<Rightarrow> currentPageIndex scenario_state)"
    by (simp add: scenario_state_def base_state_def)
  have k: "4 < length (currentPageWords (isMultipage scenario_state)
                         (ocrWords scenario_state) 0)"
    by (simp add: scenario_page1 scenario_words_def)
  have w: "scenario_words ! 4
             = currentPageWords (isMultipage scenario_state) (ocrWords scenario_state) 0 ! 4"
    by (simp add: scenario_page1)
  have p: "points (scenario_words ! 4) = None
             \<or> (\<exists>pts. points (scenario_words ! 4) = Some pts \<and> length pts < 4)"
    by (simp add: scenario_words_def)
  from C7_degenerate_geometry_zero_box [OF i k w p] show ?thesis
    by (simp add: scenario_page1 scenario_words_def)
qed

section \<open>Properties of the page navigation\<close>

text \<open>
  Claim C10. The previous-page operation decrements the page index exactly when it is
  greater than 0 and the next-page operation increments it exactly when it is less than
  \<open>totalPages - 1\<close>; both keep \<open>0 \<le> currentPageIndex \<le> totalPages - 1\<close>; and whenever
  one of them changes the page, the selection is reset to none.
\<close>

theorem C10_page_navigation_bounds:
  assumes "page_in_bounds s"
  shows "page_in_bounds (goToPreviousPage s) \<and> page_in_bounds (goToNextPage s)
       \<and> currentPageIndex (goToPreviousPage s)
           = (if currentPageIndex s > 0 then currentPageIndex s - 1 else currentPageIndex s)
       \<and> currentPageIndex (goToNextPage s)
           = (if currentPageIndex s < totalPages s - 1 then currentPageIndex s + 1
              else currentPageIndex s)
       \<and> totalPages (goToPreviousPage s) = totalPages s
       \<and> totalPages (goToNextPage s) = totalPages s
       \<and> (currentPageIndex (goToPreviousPage s) \<noteq> currentPageIndex s
            \<longrightarrow> selectedIndex (goToPreviousPage s) = None)
       \<and> (currentPageIndex (goToNextPage s) \<noteq> currentPageIndex s
            \<longrightarrow> selectedIndex (goToNextPage s) = None)"
  using assms
  by (simp add: page_in_bounds_def goToPreviousPage_def goToNextPage_def Let_def
      updateBoundingBoxesForCurrentPage_def)

theorem C10_witness:
  "page_in_bounds (scenario_state\<lparr>selectedIndex := Some 3\<rparr>)
   \<and> currentPageIndex (goToNextPage (scenario_state\<lparr>selectedIndex := Some 3\<rparr>)) = 1
   \<and> selectedIndex (goToNextPage (scenario_state\<lparr>selectedIndex := Some 3\<rparr>)) = None
   \<and> currentPageIndex (goToPreviousPage (scenario_state\<lparr>selectedIndex := Some 3\<rparr>)) = 0
   \<and> selectedIndex (goToPreviousPage (scenario_state\<lparr>selectedIndex := Some 3\<rparr>)) = Some 3"
proof -
  have h: "page_in_bounds (scenario_state\<lparr>selectedIndex := Some 3\<rparr>)"
    by (simp add: page_in_bounds_def scenario_state_def base_state_def)
  have p: "goToPreviousPage (scenario_state\<lparr>selectedIndex := Some 3\<rparr>)
             = scenario_state\<lparr>selectedIndex := Some 3\<rparr>"
    by (simp add: goToPreviousPage_def scenario_state_def base_state_def)
  from C10_page_navigation_bounds [OF h] h p show ?thesis
    by (simp add: scenario_state_def base_state_def)
qed

end
